(* ===== verification/Prelude.thy ===== *)
theory Prelude
  imports Main
begin

text \<open>
  Shared vocabulary of the development. The script \<open>src/virtualBattery_to_ha.py\<close> is
  one Python module; its values are Python numbers, JSON fields of the statistics the
  Home Assistant API returns, and the process exits it takes on an error. This theory
  names them: the exit reasons as the datatype \<open>py_error\<close>, a JSON field that may be
  missing, null or a value as \<open>'a jfield\<close>, and the sequencing \<open>rbind\<close> of
  fallible steps. It also holds the lemmas on \<open>rbind\<close> and on lists that the
  component theories share.
\<close>

section \<open>Collections\<close>

named_theorems model_defs
  "definitions of the script unfolded when a concrete run is evaluated"

section \<open>Errors: the ways the script stops\<close>

text \<open>
  Every \<open>exit(1)\<close> of the script is one constructor; an uncaught \<open>KeyError\<close>
  (a JSON key the code indexes without checking) also stops the process with a
  non-zero status and is the last constructor; so does a \<open>datetime\<close> leaving the
  years 1--9999 (\<open>DatetimeOutOfRange\<close>). A fallible step of the model returns
  \<open>py_error + 'a\<close>, \<open>Inl\<close> being the exit.
\<close>

datatype py_error =
    ConfigMissing              \<comment> \<open>\<open>HA_TOKEN or HA_URL missing\<close>\<close>
  | DateParseError             \<comment> \<open>\<open>Error parsing dates\<close>\<close>
  | StockNotFound              \<comment> \<open>\<open>ERROR: Battery stock not found\<close>\<close>
  | InjectionDataNotFound      \<comment> \<open>\<open>ERROR: Injection data not found\<close>\<close>
  | ConsumptionDataNotFound    \<comment> \<open>\<open>ERROR: Consumption data not found\<close>\<close>
  | DateMismatch               \<comment> \<open>\<open>injection and consumption date does not match\<close>\<close>
  | DatetimeOutOfRange         \<comment> \<open>uncaught \<open>ValueError\<close>/\<open>OverflowError\<close> of \<open>datetime\<close>\<close>
  | KeyError string            \<comment> \<open>uncaught \<open>KeyError\<close> on a JSON key\<close>
  | TypeError string           \<comment> \<open>uncaught \<open>TypeError\<close> of an operation on \<open>None\<close>\<close>
  | JSONDecodeError            \<comment> \<open>uncaught error of \<open>response.json()\<close> on a body that is not JSON\<close>

type_synonym 'a result = "py_error + 'a"

text \<open>
  Sequencing of fallible steps: the first \<open>Inl\<close> stops the script, as \<open>exit(1)\<close>
  or an uncaught exception does.
\<close>

definition rbind :: "'a result \<Rightarrow> ('a \<Rightarrow> 'b result) \<Rightarrow> 'b result" where
  "rbind r f = (case r of Inl e \<Rightarrow> Inl e | Inr v \<Rightarrow> f v)"

section \<open>JSON fields\<close>

text \<open>
  A key of a JSON object, read with \<open>d["key"]\<close>: missing (a \<open>KeyError\<close>), \<open>null\<close>
  (Python \<open>None\<close>) or a value (a number, a list or an object).
\<close>

datatype 'a jfield = Absent | Null | Val 'a

section \<open>The first error of a sequence of checks\<close>

text \<open>
  A loop that checks each element and stops at the first failure fails with the
  first error a check returns.
\<close>

fun first_some :: "('a \<Rightarrow> 'e option) \<Rightarrow> 'a list \<Rightarrow> 'e option" where
  "first_some f [] = None"
| "first_some f (x # xs) = (case f x of None \<Rightarrow> first_some f xs | Some e \<Rightarrow> Some e)"

section \<open>Shared lemmas\<close>

lemma rbind_Inl [simp]: "rbind (Inl e) f = Inl e"
  by (simp add: rbind_def)

lemma rbind_Inr [simp]: "rbind (Inr v) f = f v"
  by (simp add: rbind_def)

lemma rbind_eq_Inr_iff:
  "rbind r f = Inr w \<longleftrightarrow> (\<exists>v. r = Inr v \<and> f v = Inr w)"
  by (cases r) simp_all

lemma rbind_eq_Inl_iff:
  "rbind r f = Inl e \<longleftrightarrow> r = Inl e \<or> (\<exists>v. r = Inr v \<and> f v = Inl e)"
  by (cases r) simp_all

lemma take_min_length [simp]: "take (min (length xs) n) xs = take n xs"
  by (simp add: min_def)

lemma find_SomeD: "find P xs = Some x \<Longrightarrow> P x"
  by (auto simp: find_Some_iff)

lemma first_some_None: "first_some f xs = None \<longleftrightarrow> (\<forall>x \<in> set xs. f x = None)"
  by (induction xs) (auto split: option.splits)

lemma first_some_Some:
  "first_some f xs = Some e \<longleftrightarrow> (\<exists>k < length xs. (\<forall>j < k. f (xs ! j) = None) \<and> f (xs ! k) = Some e)"
proof (induction xs)
  case Nil
  then show ?case by simp
next
  case (Cons x xs)
  show ?case
  proof (cases "f x")
    case None
    have "(\<exists>k < length (x # xs). (\<forall>j < k. f ((x # xs) ! j) = None) \<and> f ((x # xs) ! k) = Some e)
        \<longleftrightarrow> (\<exists>k < length xs. (\<forall>j < k. f (xs ! j) = None) \<and> f (xs ! k) = Some e)"
    proof
      assume "\<exists>k < length (x # xs). (\<forall>j < k. f ((x # xs) ! j) = None) \<and> f ((x # xs) ! k) = Some e"
      then obtain k where k: "k < length (x # xs)" "\<forall>j < k. f ((x # xs) ! j) = None"
        "f ((x # xs) ! k) = Some e" by blast
      with None obtain k' where k': "k = Suc k'" by (cases k) auto
      have "\<forall>j < k'. f (xs ! j) = None"
      proof (intro allI impI)
        fix j assume "j < k'"
        with k(2) k' have "f ((x # xs) ! Suc j) = None" by blast
        then show "f (xs ! j) = None" by simp
      qed
      with k k' show "\<exists>k < length xs. (\<forall>j < k. f (xs ! j) = None) \<and> f (xs ! k) = Some e" by auto
    next
      assume "\<exists>k < length xs. (\<forall>j < k. f (xs ! j) = None) \<and> f (xs ! k) = Some e"
      then obtain k where k: "k < length xs" "\<forall>j < k. f (xs ! j) = None" "f (xs ! k) = Some e" by blast
      have "\<forall>j < Suc k. f ((x # xs) ! j) = None"
        using k(2) None by (auto simp: less_Suc_eq_0_disj)
      with k show "\<exists>k < length (x # xs). (\<forall>j < k. f ((x # xs) ! j) = None) \<and> f ((x # xs) ! k) = Some e"
        by (intro exI [of _ "Suc k"]) simp
    qed
    with None Cons.IH show ?thesis by simp
  next
    case (Some e')
    have "(\<exists>k < length (x # xs). (\<forall>j < k. f ((x # xs) ! j) = None) \<and> f ((x # xs) ! k) = Some e)
        \<longleftrightarrow> e' = e"
    proof
      assume "\<exists>k < length (x # xs). (\<forall>j < k. f ((x # xs) ! j) = None) \<and> f ((x # xs) ! k) = Some e"
      then obtain k where k: "\<forall>j < k. f ((x # xs) ! j) = None" "f ((x # xs) ! k) = Some e" by blast
      with Some have "k = 0" by (metis neq0_conv nth_Cons_0 option.distinct(1))
      with k Some show "e' = e" by simp
    next
      assume "e' = e"
      with Some show "\<exists>k < length (x # xs). (\<forall>j < k. f ((x # xs) ! j) = None) \<and> f ((x # xs) ! k) = Some e"
        by (intro exI [of _ 0]) simp
    qed
    with Some show ?thesis by simp
  qed
qed

lemma first_some_zip:
  "first_some f (zip xs ys) = Some e \<longleftrightarrow>
     (\<exists>k < min (length xs) (length ys). (\<forall>j < k. f (xs ! j, ys ! j) = None) \<and> f (xs ! k, ys ! k) = Some e)"
  unfolding first_some_Some by (auto simp: nth_zip)

lemma find_rev_last:
  "xs \<noteq> [] \<Longrightarrow> P (last xs) \<Longrightarrow> find P (rev xs) = Some (last xs)"
  by (metis append_butlast_last_id find.simps(2) rev_eq_Cons_iff rev_rev_ident)

lemma sorted_Cons_take: "sorted (x # xs) \<Longrightarrow> sorted (x # take n xs)"
  by (metis sorted_wrt_take take_Suc_Cons)

end
