(* ===== verification/Calendar.thy ===== *)
theory Calendar
  imports Prelude
begin

text \<open>
  The dates and times of \<open>src/virtualBattery_to_ha.py\<close>. The script handles four
  kinds of them, all through Python's \<open>datetime\<close>: the dates of the command line,
  parsed by \<open>datetime.strptime(.., "%Y-%m-%d")\<close> (lines 87--88); the naive
  datetimes of the range, shifted by \<open>timedelta\<close> (lines 94--96, 138, 152) and sent as
  \<open>isoformat(sep=' ') + GMT\<close> (lines 51, 54); the \<open>start_ts\<close> of each hourly
  sample, read by \<open>datetime.fromtimestamp(.., tz=timezone(timedelta(hours=GMT_INT)))\<close>
  (lines 164--165); and the \<open>start\<close> of each written record,
  \<open>strftime('%Y-%m-%d %H:%M:%S') + GMT\<close> (lines 203, 206, 209).

  A datetime is represented by its wall-clock seconds since 1970-01-01 00:00 of the
  same clock (\<open>int\<close>); for an aware datetime at \<open>+03:00\<close> these are the epoch
  seconds plus 10800. The proleptic Gregorian calendar of \<open>datetime\<close> is
  \<open>epoch_days\<close> (date to day number) and \<open>civil_from_days\<close> (its inverse, by a walk
  over years and months). Python's range of years 1--9999 is \<open>datetime_ok\<close>; leaving
  it raises, which is \<open>DatetimeOutOfRange\<close>. \<open>strptime\<close> is modelled with the
  regular expression CPython's \<open>_strptime\<close> builds for \<open>%Y-%m-%d\<close>, its
  alternatives tried in order, and the checks that follow the match. The last
  definitions, \<open>iso_wall\<close>, \<open>utc_offset\<close> and \<open>iso_instant\<close>, are the
  statistics store's reading of the timestamps the script sends it, in the shape the
  script produces: the wall clock less the offset the string carries.
\<close>

section \<open>The proleptic Gregorian calendar\<close>

definition is_leap :: "int \<Rightarrow> bool" where
  "is_leap y \<longleftrightarrow> 4 dvd y \<and> (\<not> 100 dvd y \<or> 400 dvd y)"

definition year_length :: "int \<Rightarrow> int" where
  "year_length y = (if is_leap y then 366 else 365)"

definition month_length :: "int \<Rightarrow> int \<Rightarrow> int" where
  "month_length y m =
     (if m = 2 then (if is_leap y then 29 else 28)
      else if m = 4 \<or> m = 6 \<or> m = 9 \<or> m = 11 then 30 else 31)"

text \<open>Days from a fixed origin to the first day of year \<open>y\<close> (leap years before \<open>y\<close> counted).\<close>

definition year_start :: "int \<Rightarrow> int" where
  "year_start y = 365 * y + (y + 3) div 4 - (y + 99) div 100 + (y + 399) div 400"

definition month_start :: "int \<Rightarrow> int \<Rightarrow> int" where
  "month_start y m = sum_list (map (month_length y) [1..m - 1])"

text \<open>The day number of a date, day 0 being 1970-01-01.\<close>

definition epoch_days :: "int \<times> int \<times> int \<Rightarrow> int" where
  "epoch_days ymd = (case ymd of (y, m, d) \<Rightarrow> year_start y - year_start 1970 + month_start y m + d - 1)"

text \<open>The date of a day number: walk whole years from 1970, then whole months.\<close>

function year_walk :: "int \<Rightarrow> int \<Rightarrow> int \<times> int" where
  "year_walk y n =
     (if n < 0 then year_walk (y - 1) (n + year_length (y - 1))
      else if year_length y \<le> n then year_walk (y + 1) (n - year_length y)
      else (y, n))"
  by pat_completeness auto
termination
  by (relation "measures [\<lambda>(y, n). if n < 0 then 1 else 0, \<lambda>(y, n). nat \<bar>n\<bar>]")
     (auto simp: year_length_def split: if_splits)

function month_walk :: "int \<Rightarrow> int \<Rightarrow> int \<Rightarrow> int \<times> int" where
  "month_walk y m n =
     (if m < 12 \<and> month_length y m \<le> n then month_walk y (m + 1) (n - month_length y m)
      else (m, n + 1))"
  by pat_completeness auto
termination
  by (relation "measure (\<lambda>(y, m, n). nat (12 - m))") auto

definition civil_from_days :: "int \<Rightarrow> int \<times> int \<times> int" where
  "civil_from_days z =
     (case year_walk 1970 z of (y, n) \<Rightarrow> (case month_walk y 1 n of (m, d) \<Rightarrow> (y, m, d)))"

definition month_rest :: "int \<Rightarrow> int \<Rightarrow> int" where
  "month_rest y m = sum_list (map (month_length y) [m..12])"

text \<open>\<open>datetime\<close>'s \<open>_check_date_fields\<close>: year 1--9999, month 1--12, a day of the month.\<close>

definition valid_date :: "int \<times> int \<times> int \<Rightarrow> bool" where
  "valid_date ymd \<longleftrightarrow> (case ymd of (y, m, d) \<Rightarrow> 1 \<le> m \<and> m \<le> 12 \<and> 1 \<le> d \<and> d \<le> month_length y m)"

definition check_date_fields :: "int \<times> int \<times> int \<Rightarrow> bool" where
  "check_date_fields ymd \<longleftrightarrow> (case ymd of (y, m, d) \<Rightarrow> 1 \<le> y \<and> y \<le> 9999 \<and> valid_date (y, m, d))"

section \<open>Datetimes as wall-clock seconds\<close>

text \<open>\<open>datetime.min\<close> and the first instant after \<open>datetime.max\<close>, in seconds.\<close>

definition dt_min :: int where
  "dt_min = epoch_days (1, 1, 1) * 86400"

definition dt_max :: int where
  "dt_max = epoch_days (10000, 1, 1) * 86400"

definition datetime_ok :: "int \<Rightarrow> bool" where
  "datetime_ok n \<longleftrightarrow> dt_min \<le> n \<and> n < dt_max"

text \<open>\<open>datetime + timedelta(seconds=k)\<close>: an \<open>OverflowError\<close> out of range.\<close>

definition timedelta_add :: "int \<Rightarrow> int \<Rightarrow> int result" where
  "timedelta_add n k = (if datetime_ok (n + k) then Inr (n + k) else Inl DatetimeOutOfRange)"

text \<open>\<open>replace(hour=0, minute=0, second=0, microsecond=0)\<close>.\<close>

definition midnight :: "int \<Rightarrow> int" where
  "midnight n = n - n mod 86400"

text \<open>Lines 32--33: the fixed offset of the local clock.\<close>

definition GMT_INT :: int where
  "GMT_INT = 3"

definition GMT :: string where
  "GMT = ''+03:00''"

text \<open>
  \<open>datetime.fromtimestamp(ts, tz=timezone(timedelta(hours=GMT_INT)))\<close>: CPython
  breaks \<open>ts\<close> down in UTC (year 0 raises \<open>ValueError\<close>) and then shifts to the zone
  (year 10000 raises \<open>OverflowError\<close>). The result is the wall clock at \<open>+03:00\<close>.
\<close>

definition fromtimestamp_gmt3 :: "int \<Rightarrow> int option" where
  "fromtimestamp_gmt3 ts =
     (let local = ts + GMT_INT * 3600 in if dt_min \<le> ts \<and> local < dt_max then Some local else None)"

text \<open>The fields year, month, day, hour, minute, second of a datetime.\<close>

definition dt_fields :: "int \<Rightarrow> int \<times> int \<times> int \<times> int \<times> int \<times> int" where
  "dt_fields n =
     (case civil_from_days (n div 86400) of (y, m, d) \<Rightarrow>
        (let s = n mod 86400 in (y, m, d, s div 3600, s mod 3600 div 60, s mod 60)))"

section \<open>Decimal digits\<close>

text \<open>The character of a decimal digit \<open>k < 10\<close>, and \<open>str(n)\<close> of a natural number.\<close>

definition digit_char :: "nat \<Rightarrow> char" where
  "digit_char k = char_of (48 + k)"

fun nat_digits :: "nat \<Rightarrow> string" where
  "nat_digits n = (if n < 10 then [digit_char n] else nat_digits (n div 10) @ [digit_char (n mod 10)])"

text \<open>\<open>%02d\<close> and \<open>%04d\<close>.\<close>

definition pad2 :: "nat \<Rightarrow> string" where
  "pad2 n = (if n < 10 then ''0'' @ nat_digits n else nat_digits n)"

definition pad4 :: "nat \<Rightarrow> string" where
  "pad4 n = replicate (4 - length (nat_digits n)) (CHR ''0'') @ nat_digits n"

text \<open>A decimal digit (\<open>\d\<close>: among 8-bit characters, only \<open>0\<close>--\<open>9\<close>) and its value.\<close>

definition digit_val :: "char \<Rightarrow> nat option" where
  "digit_val c = (let k = of_char c :: nat in if 48 \<le> k \<and> k \<le> 57 then Some (k - 48) else None)"

fun digits_acc :: "nat \<Rightarrow> string \<Rightarrow> nat option" where
  "digits_acc acc [] = Some acc"
| "digits_acc acc (c # cs) = (case digit_val c of None \<Rightarrow> None | Some k \<Rightarrow> digits_acc (10 * acc + k) cs)"

text \<open>\<open>int(s)\<close> of a non-empty string of digits.\<close>

definition digits_val :: "string \<Rightarrow> nat option" where
  "digits_val s = (if s = [] then None else digits_acc 0 s)"

section \<open>Formatting\<close>

text \<open>\<open>strftime('%Y-%m-%d %H:%M:%S')\<close> (glibc: \<open>%Y\<close> is not padded).\<close>

definition strftime_ymdhms :: "int \<Rightarrow> string" where
  "strftime_ymdhms n =
     (case dt_fields n of (y, m, d, hh, mi, ss) \<Rightarrow>
        nat_digits (nat y) @ ''-'' @ pad2 (nat m) @ ''-'' @ pad2 (nat d) @ '' ''
        @ pad2 (nat hh) @ '':'' @ pad2 (nat mi) @ '':'' @ pad2 (nat ss))"

text \<open>\<open>isoformat(sep=' ')\<close> of a naive datetime without microseconds.\<close>

definition isoformat_sp :: "int \<Rightarrow> string" where
  "isoformat_sp n =
     (case dt_fields n of (y, m, d, hh, mi, ss) \<Rightarrow>
        pad4 (nat y) @ ''-'' @ pad2 (nat m) @ ''-'' @ pad2 (nat d) @ '' ''
        @ pad2 (nat hh) @ '':'' @ pad2 (nat mi) @ '':'' @ pad2 (nat ss))"

section \<open>strptime with the format \<open>%Y-%m-%d\<close>\<close>

text \<open>
  CPython compiles the format to \<open>(?P<Y>\d\d\d\d)-(?P<m>1[0-2]|0[1-9]|[1-9])-
  (?P<d>3[0-1]|[1-2]\d|0[1-9]|[1-9]| [1-9])\<close> and takes the first match at the
  start of the string. An alternative is a function from the remaining input to its
  matches (at most one), as the value read and the input left; a group is the list of
  its alternatives' matches in the order the regular expression engine tries them.
\<close>

definition digit_in :: "nat \<Rightarrow> nat \<Rightarrow> char \<Rightarrow> nat option" where
  "digit_in lo hi c = (case digit_val c of Some k \<Rightarrow> if lo \<le> k \<and> k \<le> hi then Some k else None | None \<Rightarrow> None)"

fun alt1 :: "nat \<times> nat \<Rightarrow> string \<Rightarrow> (nat \<times> string) list" where
  "alt1 (lo, hi) (a # rest) = (case digit_in lo hi a of Some x \<Rightarrow> [(x, rest)] | None \<Rightarrow> [])"
| "alt1 _ [] = []"

fun alt2 :: "nat \<times> nat \<Rightarrow> nat \<times> nat \<Rightarrow> string \<Rightarrow> (nat \<times> string) list" where
  "alt2 (lo1, hi1) (lo2, hi2) (a # b # rest) =
     (case (digit_in lo1 hi1 a, digit_in lo2 hi2 b) of (Some x, Some y) \<Rightarrow> [(10 * x + y, rest)] | _ \<Rightarrow> [])"
| "alt2 _ _ _ = []"

text \<open>The alternative \<open>' [1-9]'\<close> of the day: a space, then a digit.\<close>

fun alt_sp :: "string \<Rightarrow> (nat \<times> string) list" where
  "alt_sp (a # rest) = (if a = CHR '' '' then alt1 (1, 9) rest else [])"
| "alt_sp [] = []"

definition re_Y :: "string \<Rightarrow> (nat \<times> string) option" where
  "re_Y s = (if length s \<ge> 4 then map_option (\<lambda>y. (y, drop 4 s)) (digits_val (take 4 s)) else None)"

definition re_m :: "string \<Rightarrow> (nat \<times> string) list" where
  "re_m s = alt2 (1, 1) (0, 2) s @ alt2 (0, 0) (1, 9) s @ alt1 (1, 9) s"

definition re_d :: "string \<Rightarrow> (nat \<times> string) list" where
  "re_d s = alt2 (3, 3) (0, 1) s @ alt2 (1, 2) (0, 9) s @ alt2 (0, 0) (1, 9) s @ alt1 (1, 9) s @ alt_sp s"

text \<open>A literal character of the format.\<close>

definition lit :: "char \<Rightarrow> string \<Rightarrow> string option" where
  "lit c s = (case s of a # rest \<Rightarrow> if a = c then Some rest else None | [] \<Rightarrow> None)"

text \<open>The first match of the whole expression, with the input it leaves.\<close>

definition re_ymd :: "string \<Rightarrow> ((nat \<times> nat \<times> nat) \<times> string) option" where
  "re_ymd s =
     (case re_Y s of
        None \<Rightarrow> None
      | Some (y, r1) \<Rightarrow>
          (case lit (CHR ''-'') r1 of
             None \<Rightarrow> None
           | Some r2 \<Rightarrow>
               (case concat (map (\<lambda>(m, r3). case lit (CHR ''-'') r3 of
                                     None \<Rightarrow> []
                                   | Some r4 \<Rightarrow> map (\<lambda>(d, r5). ((y, m, d), r5)) (re_d r4))
                          (re_m r2)) of
                  [] \<Rightarrow> None
                | x # _ \<Rightarrow> Some x)))"

text \<open>
  \<open>datetime.strptime(s, "%Y-%m-%d")\<close>: no match, unconverted data left over, or a
  date \<open>datetime\<close> rejects (year 0, a day past the month's end) raise
  \<open>ValueError\<close> (\<open>None\<close>); otherwise the naive midnight of the date.
\<close>

definition strptime_ymd :: "string \<Rightarrow> int option" where
  "strptime_ymd s =
     (case re_ymd s of
        None \<Rightarrow> None
      | Some ((y, m, d), rest) \<Rightarrow>
          (if rest \<noteq> [] then None
           else if \<not> check_date_fields (int y, int m, int d) then None
           else Some (epoch_days (int y, int m, int d) * 86400)))"

section \<open>The store's reading of a timestamp\<close>

text \<open>
  The instant (epoch seconds) of a string \<open>YYYY-MM-DD HH:MM:SS\<plusminus>hh:mm\<close>, as the
  statistics store reads the \<open>start\<close> of a record and the \<open>datetime\<close> of a query:
  the wall-clock seconds of the first 19 characters, less the UTC offset written in
  the last six; other shapes are not read.
\<close>

definition iso_wall :: "string \<Rightarrow> int option" where
  "iso_wall s =
     (if length s = 19 \<and> s ! 4 = CHR ''-'' \<and> s ! 7 = CHR ''-'' \<and> s ! 10 = CHR '' ''
         \<and> s ! 13 = CHR '':'' \<and> s ! 16 = CHR '':''
      then (case (digits_val (take 4 s), digits_val (take 2 (drop 5 s)), digits_val (take 2 (drop 8 s)),
                  digits_val (take 2 (drop 11 s)), digits_val (take 2 (drop 14 s)),
                  digits_val (take 2 (drop 17 s))) of
              (Some y, Some m, Some d, Some h, Some mi, Some sec) \<Rightarrow>
                Some (epoch_days (int y, int m, int d) * 86400 + int h * 3600 + int mi * 60 + int sec)
            | _ \<Rightarrow> None)
      else None)"

definition utc_offset :: "string \<Rightarrow> int option" where
  "utc_offset z =
     (if length z = 6 \<and> (z ! 0 = CHR ''+'' \<or> z ! 0 = CHR ''-'') \<and> z ! 3 = CHR '':''
      then (case (digits_val (take 2 (drop 1 z)), digits_val (drop 4 z)) of
              (Some h, Some mi) \<Rightarrow>
                Some ((if z ! 0 = CHR ''-'' then -1 else 1) * (int h * 3600 + int mi * 60))
            | _ \<Rightarrow> None)
      else None)"

definition iso_instant :: "string \<Rightarrow> int option" where
  "iso_instant s =
     (if length s = 25
      then (case (iso_wall (take 19 s), utc_offset (drop 19 s)) of
              (Some w, Some off) \<Rightarrow> Some (w - off)
            | _ \<Rightarrow> None)
      else None)"

declare year_walk.simps [simp del] month_walk.simps [simp del] nat_digits.simps [simp del]

section \<open>Calendar arithmetic\<close>

lemma dt_min_val: "dt_min = -62135596800"
  by (simp add: dt_min_def epoch_days_def year_start_def month_start_def upto.simps)

lemma dt_max_val: "dt_max = 253402300800"
  by (simp add: dt_max_def epoch_days_def year_start_def month_start_def upto.simps)

declare dt_min_val [model_defs] dt_max_val [model_defs] datetime_ok_def [model_defs]
  timedelta_add_def [model_defs] midnight_def [model_defs] GMT_INT_def [model_defs]
  fromtimestamp_gmt3_def [model_defs]

lemma div_plus1_int:
  fixes x k :: int
  assumes k: "0 < k"
  shows "(x + 1) div k = x div k + (if k dvd (x + 1) then 1 else 0)"
proof -
  define q r where "q = x div k" and "r = x mod k"
  have x: "x + 1 = (r + 1) + q * k" and r: "0 \<le> r" "r < k"
    using k by (simp_all add: q_def r_def)
  show ?thesis
  proof (cases "r + 1 = k")
    case True
    then have "x + 1 = (q + 1) * k" using x by (simp add: algebra_simps)
    with k show ?thesis by (simp add: q_def)
  next
    case False
    with r have r1: "0 \<le> r + 1" "r + 1 < k" by simp_all
    have "(x + 1) div k = ((r + 1) + q * k) div k" by (simp only: x)
    also have "\<dots> = q + (r + 1) div k" using k by simp
    also have "(r + 1) div k = 0" using r1 by (rule div_pos_pos_trivial)
    finally have d: "(x + 1) div k = q" by simp
    have "(x + 1) mod k = ((r + 1) + q * k) mod k" by (simp only: x)
    also have "\<dots> = (r + 1) mod k" by (rule mod_mult_self1)
    also have "\<dots> = r + 1" using r1 by (rule mod_pos_pos_trivial)
    finally have m: "(x + 1) mod k = r + 1" .
    have "\<not> k dvd (x + 1)"
    proof
      assume "k dvd (x + 1)"
      then have "(x + 1) mod k = 0" by (rule dvd_imp_mod_0)
      with m r show False by linarith
    qed
    with d show ?thesis by (simp add: q_def)
  qed
qed

lemma dvd_plus_self_int: "(k::int) dvd (y + k) \<longleftrightarrow> k dvd y"
  by simp

lemma year_start_Suc: "year_start (y + 1) = year_start y + year_length y"
proof -
  have a: "(y + 1 + 3) div 4 = (y + 3) div 4 + (if 4 dvd y then 1 else 0)"
    using div_plus1_int [of 4 "y + 3"] dvd_plus_self_int [of 4 y] by (simp add: add.assoc)
  have b: "(y + 1 + 99) div 100 = (y + 99) div 100 + (if 100 dvd y then 1 else 0)"
    using div_plus1_int [of 100 "y + 99"] dvd_plus_self_int [of 100 y] by (simp add: add.assoc)
  have c: "(y + 1 + 399) div 400 = (y + 399) div 400 + (if 400 dvd y then 1 else 0)"
    using div_plus1_int [of 400 "y + 399"] dvd_plus_self_int [of 400 y] by (simp add: add.assoc)
  have d: "400 dvd y \<Longrightarrow> 100 dvd y" "100 dvd y \<Longrightarrow> 4 dvd y"
    using dvd_trans [of "100::int" 400 y] dvd_trans [of "4::int" 100 y] by simp_all
  have "year_start (y + 1) = year_start y + 365 + (if 4 dvd y then 1 else 0)
      - (if 100 dvd y then 1 else 0) + (if 400 dvd y then 1 else 0)"
    unfolding year_start_def a b c by (simp add: algebra_simps)
  with d show ?thesis
    by (cases "4 dvd y"; cases "100 dvd y"; cases "400 dvd y")
       (simp_all add: year_length_def is_leap_def)
qed

lemma year_walk_days:
  "year_walk y n = (y', n') \<Longrightarrow> year_start y' + n' = year_start y + n \<and> 0 \<le> n' \<and> n' < year_length y'"
proof (induction y n rule: year_walk.induct)
  case (1 y n)
  show ?case
  proof (cases "n < 0")
    case True
    with "1.prems" have "year_walk (y - 1) (n + year_length (y - 1)) = (y', n')"
      by (simp add: year_walk.simps [of y n])
    with "1.IH"(1) True have "year_start y' + n' = year_start (y - 1) + (n + year_length (y - 1))
        \<and> 0 \<le> n' \<and> n' < year_length y'" by blast
    moreover have "year_start y = year_start (y - 1) + year_length (y - 1)"
      using year_start_Suc [of "y - 1"] by simp
    ultimately show ?thesis by simp
  next
    case False
    show ?thesis
    proof (cases "year_length y \<le> n")
      case True
      with False "1.prems" have "year_walk (y + 1) (n - year_length y) = (y', n')"
        by (simp add: year_walk.simps [of y n])
      with "1.IH"(2) False True show ?thesis by (simp add: year_start_Suc)
    next
      case False': False
      with False "1.prems" show ?thesis by (simp add: year_walk.simps [of y n])
    qed
  qed
qed

lemma month_start_Suc: "1 \<le> m \<Longrightarrow> month_start y (m + 1) = month_start y m + month_length y m"
  by (simp add: month_start_def upto_rec2)

lemma month_rest_Suc: "m \<le> 12 \<Longrightarrow> month_rest y m = month_length y m + month_rest y (m + 1)"
  by (simp add: month_rest_def upto_rec1)

lemma month_rest_1: "month_rest y 1 = year_length y"
  by (simp add: month_rest_def upto.simps month_length_def year_length_def)

lemma month_walk_days:
  "month_walk y m n = (m', d') \<Longrightarrow> 1 \<le> m \<Longrightarrow> month_start y m' + d' - 1 = month_start y m + n"
proof (induction y m n rule: month_walk.induct)
  case (1 y m n)
  show ?case
  proof (cases "m < 12 \<and> month_length y m \<le> n")
    case True
    with "1.prems" have "month_walk y (m + 1) (n - month_length y m) = (m', d')"
      by (simp add: month_walk.simps [of y m n])
    with "1.IH" True "1.prems"(2) show ?thesis by (simp add: month_start_Suc)
  next
    case False
    with "1.prems" show ?thesis by (simp add: month_walk.simps [of y m n])
  qed
qed

lemma month_walk_valid:
  "month_walk y m n = (m', d') \<Longrightarrow> 1 \<le> m \<Longrightarrow> m \<le> 12 \<Longrightarrow> 0 \<le> n \<Longrightarrow> n < month_rest y m
   \<Longrightarrow> 1 \<le> m' \<and> m' \<le> 12 \<and> 1 \<le> d' \<and> d' \<le> month_length y m'"
proof (induction y m n rule: month_walk.induct)
  case (1 y m n)
  show ?case
  proof (cases "m < 12 \<and> month_length y m \<le> n")
    case True
    with "1.prems" have "month_walk y (m + 1) (n - month_length y m) = (m', d')"
      by (simp add: month_walk.simps [of y m n])
    with "1.IH" True "1.prems"(2-5) show ?thesis by (simp add: month_rest_Suc)
  next
    case False
    with "1.prems" have "m' = m" "d' = n + 1" by (simp_all add: month_walk.simps [of y m n])
    with False "1.prems"(2-5) show ?thesis
      by (auto simp: month_rest_def)
  qed
qed

lemma epoch_days_civil_from_days: "epoch_days (civil_from_days z) = z"
proof -
  obtain y n where yn: "year_walk 1970 z = (y, n)" by fastforce
  obtain m d where md: "month_walk y 1 n = (m, d)" by fastforce
  have "year_start y + n = year_start 1970 + z" using year_walk_days [OF yn] by simp
  moreover have "month_start y m + d - 1 = month_start y 1 + n" using month_walk_days [OF md] by simp
  moreover have "month_start y 1 = 0" by (simp add: month_start_def)
  ultimately show ?thesis by (simp add: civil_from_days_def yn md epoch_days_def)
qed

lemma civil_from_days_valid: "valid_date (civil_from_days z)"
proof -
  obtain y n where yn: "year_walk 1970 z = (y, n)" by fastforce
  obtain m d where md: "month_walk y 1 n = (m, d)" by fastforce
  have "0 \<le> n" "n < month_rest y 1" using year_walk_days [OF yn] by (simp_all add: month_rest_1)
  then have "1 \<le> m \<and> m \<le> 12 \<and> 1 \<le> d \<and> d \<le> month_length y m"
    using month_walk_valid [OF md] by simp
  then show ?thesis by (simp add: civil_from_days_def yn md valid_date_def)
qed

section \<open>Digits\<close>

lemma year_start_mono: "y1 \<le> y2 \<Longrightarrow> year_start y1 \<le> year_start y2"
proof (induction y2 rule: int_ge_induct)
  case base
  then show ?case by simp
next
  case (step i)
  then show ?case by (simp add: year_start_Suc year_length_def)
qed

lemma year_start_less: "y1 < y2 \<Longrightarrow> year_start y1 + year_length y1 \<le> year_start y2"
  using year_start_mono [of "y1 + 1" y2] by (simp add: year_start_Suc)

lemma epoch_days_Jan1: "epoch_days (y, 1, 1) = year_start y - year_start 1970"
  by (simp add: epoch_days_def month_start_def)

lemma civil_from_days_year_bounds:
  assumes "civil_from_days z = (y, m, d)" and "epoch_days (y1, 1, 1) \<le> z" and "z < epoch_days (y2, 1, 1)"
  shows "y1 \<le> y \<and> y < y2"
proof -
  obtain y' n where yn: "year_walk 1970 z = (y', n)" by fastforce
  with assms(1) have y: "y' = y" by (auto simp: civil_from_days_def split: prod.splits)
  from year_walk_days [OF yn] y have e: "year_start y + n = year_start 1970 + z"
    and n: "0 \<le> n" "n < year_length y" by simp_all
  have "\<not> y < y1"
  proof
    assume "y < y1"
    then have "year_start y + year_length y \<le> year_start y1" by (rule year_start_less)
    with e n assms(2) show False by (simp add: epoch_days_Jan1)
  qed
  moreover have "\<not> y2 \<le> y"
  proof
    assume "y2 \<le> y"
    then have "year_start y2 \<le> year_start y" by (rule year_start_mono)
    with e n assms(3) show False by (simp add: epoch_days_Jan1)
  qed
  ultimately show ?thesis by simp
qed

lemma digit_val_char: "n < 10 \<Longrightarrow> digit_val (digit_char n) = Some n"
  by (simp add: digit_val_def digit_char_def Let_def)

lemma digits_acc_append:
  "digits_acc acc (xs @ ys) = (case digits_acc acc xs of None \<Rightarrow> None | Some a \<Rightarrow> digits_acc a ys)"
  by (induction acc xs rule: digits_acc.induct) (auto split: option.splits)

lemma digits_acc_nat_digits:
  "digits_acc acc (nat_digits n) = Some (acc * 10 ^ length (nat_digits n) + n)"
proof (induction n arbitrary: acc rule: nat_digits.induct)
  case (1 n)
  show ?case
  proof (cases "n < 10")
    case True
    then show ?thesis by (simp add: nat_digits.simps [of n] digit_val_char)
  next
    case False
    then have "nat_digits n = nat_digits (n div 10) @ [digit_char (n mod 10)]"
      by (simp add: nat_digits.simps [of n])
    with False "1.IH" show ?thesis
      by (simp add: digits_acc_append digit_val_char algebra_simps)
  qed
qed

lemma nat_digits_nonempty: "nat_digits n \<noteq> []"
  by (simp add: nat_digits.simps [of n])

lemma digits_val_nat_digits: "digits_val (nat_digits n) = Some n"
  by (simp add: digits_val_def nat_digits_nonempty digits_acc_nat_digits)

lemma length_pad2:
  assumes "n < 100"
  shows "length (pad2 n) = 2"
proof -
  have "n div 10 < 10" using assms by (intro less_mult_imp_div_less) simp
  then show ?thesis by (simp add: pad2_def nat_digits.simps [of n] nat_digits.simps [of "n div 10"])
qed

lemma digits_val_pad2: "digits_val (pad2 n) = Some n"
  by (simp add: pad2_def digits_val_def nat_digits_nonempty digits_acc_nat_digits digit_val_def)

lemma length_nat_digits_4:
  assumes "1000 \<le> n" and "n < 10000"
  shows "length (nat_digits n) = 4"
proof -
  have a: "100 \<le> n div 10" using div_le_mono [OF assms(1), of 10] by simp
  have b: "10 \<le> n div 10 div 10" using div_le_mono [OF a, of 10] by simp
  have c: "1 \<le> n div 10 div 10 div 10" using div_le_mono [OF b, of 10] by simp
  have "n div 10 div 10 div 10 < 10"
    using assms by (simp add: div_mult2_eq less_mult_imp_div_less)
  with a b c have "\<not> n < 10" "\<not> n div 10 < 10" "\<not> n div 10 div 10 < 10" "n div 10 div 10 div 10 < 10"
    using assms by simp_all
  then show ?thesis
    by (simp add: nat_digits.simps [of n] nat_digits.simps [of "n div 10"]
        nat_digits.simps [of "n div 10 div 10"] nat_digits.simps [of "n div 10 div 10 div 10"])
qed

section \<open>Fields of a datetime\<close>

lemma day_time_split:
  fixes L :: int
  shows "L = (L div 86400) * 86400 + (L mod 86400) div 3600 * 3600
             + (L mod 86400) mod 3600 div 60 * 60 + (L mod 86400) mod 60"
    and "0 \<le> (L mod 86400) div 3600" "(L mod 86400) div 3600 < 24"
    and "0 \<le> (L mod 86400) mod 3600 div 60" "(L mod 86400) mod 3600 div 60 < 60"
    and "0 \<le> (L mod 86400) mod 60" "(L mod 86400) mod 60 < 60"
proof -
  let ?s = "L mod 86400"
  have a: "L = (L div 86400) * 86400 + ?s" by simp
  have b: "?s = ?s div 3600 * 3600 + ?s mod 3600" by simp
  have c: "?s mod 3600 = ?s mod 3600 div 60 * 60 + ?s mod 3600 mod 60" by simp
  have d: "?s mod 3600 mod 60 = ?s mod 60" by (rule mod_mod_cancel) simp
  have s: "0 \<le> ?s" "?s < 86400" by simp_all
  from a b c d show "L = (L div 86400) * 86400 + ?s div 3600 * 3600 + ?s mod 3600 div 60 * 60 + ?s mod 60"
    by linarith
  have m1: "0 \<le> ?s mod 3600" "?s mod 3600 < 3600" "0 \<le> ?s mod 3600 mod 60" by simp_all
  have m2: "0 \<le> ?s mod 60" "?s mod 60 < 60" by simp_all
  show "0 \<le> ?s div 3600" using s by simp
  show "?s div 3600 < 24" using b s m1 by linarith
  show "0 \<le> ?s mod 3600 div 60" using m1 by simp
  show "?s mod 3600 div 60 < 60" using c m1 by linarith
  show "0 \<le> ?s mod 60" "?s mod 60 < 60" by (rule m2)+
qed

lemma dt_fields_props:
  assumes "dt_fields n = (y, m, d, hh, mi, ss)"
  shows "n = epoch_days (y, m, d) * 86400 + hh * 3600 + mi * 60 + ss"
    and "valid_date (y, m, d)"
    and "0 \<le> hh" "hh < 24" "0 \<le> mi" "mi < 60" "0 \<le> ss" "ss < 60"
proof -
  obtain y' m' d' where c: "civil_from_days (n div 86400) = (y', m', d')" by (metis prod_cases3)
  with assms have f: "y = y'" "m = m'" "d = d'" "hh = n mod 86400 div 3600"
      "mi = n mod 86400 mod 3600 div 60" "ss = n mod 86400 mod 60"
    by (simp_all add: dt_fields_def Let_def)
  have "epoch_days (y, m, d) = n div 86400"
    using epoch_days_civil_from_days [of "n div 86400"] c f by simp
  with f day_time_split(1) [of n]
  show "n = epoch_days (y, m, d) * 86400 + hh * 3600 + mi * 60 + ss" by linarith
  show "valid_date (y, m, d)" using civil_from_days_valid [of "n div 86400"] c f by simp
  show "0 \<le> hh" "hh < 24" "0 \<le> mi" "mi < 60" "0 \<le> ss" "ss < 60"
    unfolding f by (rule day_time_split)+
qed

lemma dt_fields_year:
  assumes "dt_fields n = (y, m, d, hh, mi, ss)"
    and "epoch_days (y1, 1, 1) * 86400 \<le> n" and "n < epoch_days (y2, 1, 1) * 86400"
  shows "y1 \<le> y \<and> y < y2"
proof -
  obtain y' m' d' where c: "civil_from_days (n div 86400) = (y', m', d')" by (metis prod_cases3)
  with assms(1) have y: "y = y'" by (simp add: dt_fields_def Let_def)
  have "n = n div 86400 * 86400 + n mod 86400" "0 \<le> n mod 86400" "n mod 86400 < 86400" by simp_all
  with assms(2,3) have "epoch_days (y1, 1, 1) \<le> n div 86400" "n div 86400 < epoch_days (y2, 1, 1)"
    by linarith+
  from civil_from_days_year_bounds [OF c this] y show ?thesis by simp
qed

lemma utc_offset_GMT: "utc_offset GMT = Some (GMT_INT * 3600)"
  by (simp add: utc_offset_def GMT_def GMT_INT_def digits_val_def digit_val_def)

lemma iso_instant_fields:
  assumes "length Y = 4" "length M = 2" "length D = 2" "length H = 2" "length Mi = 2" "length S = 2"
  shows "iso_instant (Y @ ''-'' @ M @ ''-'' @ D @ '' '' @ H @ '':'' @ Mi @ '':'' @ S @ GMT)
    = (case (digits_val Y, digits_val M, digits_val D, digits_val H, digits_val Mi, digits_val S) of
         (Some y, Some m, Some d, Some h, Some mi, Some sec) \<Rightarrow>
           Some (epoch_days (int y, int m, int d) * 86400 + int h * 3600 + int mi * 60 + int sec
                 - GMT_INT * 3600)
       | _ \<Rightarrow> None)"
proof -
  let ?w = "Y @ ''-'' @ M @ ''-'' @ D @ '' '' @ H @ '':'' @ Mi @ '':'' @ S"
  have l: "length ?w = 19" "length GMT = 6" using assms by (simp_all add: GMT_def)
  then have "take 19 (?w @ GMT) = ?w" "drop 19 (?w @ GMT) = GMT"
    by (metis append_eq_conv_conj)+
  moreover have "iso_wall ?w =
      (case (digits_val Y, digits_val M, digits_val D, digits_val H, digits_val Mi, digits_val S) of
         (Some y, Some m, Some d, Some h, Some mi, Some sec) \<Rightarrow>
           Some (epoch_days (int y, int m, int d) * 86400 + int h * 3600 + int mi * 60 + int sec)
       | _ \<Rightarrow> None)"
    using assms by (simp add: iso_wall_def nth_append)
  ultimately show ?thesis
    using l by (simp add: iso_instant_def utc_offset_GMT split: option.split)
qed

lemma month_length_le_31: "month_length y m \<le> 31"
  by (simp add: month_length_def)

lemma iso_instant_dt_fields:
  assumes "dt_fields n = (y, m, d, hh, mi, ss)" and "0 \<le> y"
    and "length Ys = 4" and "digits_val Ys = Some (nat y)"
  shows "iso_instant (Ys @ ''-'' @ pad2 (nat m) @ ''-'' @ pad2 (nat d) @ '' '' @ pad2 (nat hh) @ '':''
            @ pad2 (nat mi) @ '':'' @ pad2 (nat ss) @ GMT) = Some (n - GMT_INT * 3600)"
proof -
  note f = dt_fields_props [OF assms(1)]
  have md: "1 \<le> m" "m \<le> 12" "1 \<le> d" "d \<le> 31"
    using f(2) month_length_le_31 [of y m] by (simp_all add: valid_date_def)
  have lens: "length (pad2 (nat m)) = 2" "length (pad2 (nat d)) = 2" "length (pad2 (nat hh)) = 2"
    "length (pad2 (nat mi)) = 2" "length (pad2 (nat ss)) = 2"
    using md f(3-8) by (auto intro!: length_pad2)
  have vals: "int (nat y) = y" "int (nat m) = m" "int (nat d) = d" "int (nat hh) = hh"
    "int (nat mi) = mi" "int (nat ss) = ss"
    using assms(2) md f(3-8) by simp_all
  show ?thesis
    unfolding iso_instant_fields [OF assms(3) lens]
    by (simp only: digits_val_pad2 assms(4) option.case prod.case vals f(1) GMT_INT_def)
qed

section \<open>Round trips of the timestamp strings\<close>

lemma length_nat_digits_le: "n < 10 ^ k \<Longrightarrow> 0 < k \<Longrightarrow> length (nat_digits n) \<le> k"
proof (induction n arbitrary: k rule: nat_digits.induct)
  case (1 n)
  show ?case
  proof (cases "n < 10")
    case True
    with "1.prems" show ?thesis by (simp add: nat_digits.simps [of n])
  next
    case False
    then obtain k' where k: "k = Suc k'" using "1.prems"(2) by (cases k) simp_all
    have "0 < k'"
    proof (rule ccontr)
      assume "\<not> 0 < k'"
      with k "1.prems"(1) False show False by simp
    qed
    moreover have "n div 10 < 10 ^ k'"
      using "1.prems"(1) k by (intro less_mult_imp_div_less) (simp add: mult.commute)
    ultimately have "length (nat_digits (n div 10)) \<le> k'" using "1.IH" False by blast
    with False k show ?thesis by (simp add: nat_digits.simps [of n])
  qed
qed

lemma length_pad4: "n < 10000 \<Longrightarrow> length (pad4 n) = 4"
  using length_nat_digits_le [of n 4] by (simp add: pad4_def)

lemma digits_acc_zeros: "digits_acc 0 (replicate j (CHR ''0'') @ xs) = digits_acc 0 xs"
  by (induction j) (simp_all add: digit_val_def)

lemma digits_val_pad4: "digits_val (pad4 n) = Some n"
  by (simp add: pad4_def digits_val_def digits_acc_zeros digits_acc_nat_digits nat_digits_nonempty)

lemma dt_min_Jan1: "dt_min = epoch_days (1, 1, 1) * 86400" and dt_max_Jan1: "dt_max = epoch_days (10000, 1, 1) * 86400"
  by (simp_all add: dt_min_def dt_max_def)

lemma iso_instant_isoformat:
  assumes "datetime_ok n"
  shows "iso_instant (isoformat_sp n @ GMT) = Some (n - GMT_INT * 3600)"
proof -
  obtain y m d hh mi ss where f: "dt_fields n = (y, m, d, hh, mi, ss)" by (metis prod_cases6)
  from assms have "epoch_days (1, 1, 1) * 86400 \<le> n" "n < epoch_days (10000, 1, 1) * 86400"
    by (simp_all add: datetime_ok_def dt_min_def dt_max_def)
  then have y: "1 \<le> y \<and> y < 10000" by (rule dt_fields_year [OF f])
  then have "nat y < 10000" by arith
  then have "length (pad4 (nat y)) = 4" by (rule length_pad4)
  from iso_instant_dt_fields [OF f _ this digits_val_pad4] y show ?thesis
    by (simp add: isoformat_sp_def f)
qed

lemma iso_instant_strftime:
  assumes "epoch_days (1000, 1, 1) * 86400 \<le> n" and "n < dt_max"
  shows "iso_instant (strftime_ymdhms n @ GMT) = Some (n - GMT_INT * 3600)"
proof -
  obtain y m d hh mi ss where f: "dt_fields n = (y, m, d, hh, mi, ss)" by (metis prod_cases6)
  from assms have "epoch_days (1000, 1, 1) * 86400 \<le> n" "n < epoch_days (10000, 1, 1) * 86400"
    by (simp_all add: dt_max_def)
  then have y: "1000 \<le> y \<and> y < 10000" by (rule dt_fields_year [OF f])
  then have "1000 \<le> nat y" "nat y < 10000" by arith+
  then have "length (nat_digits (nat y)) = 4" by (rule length_nat_digits_4)
  from iso_instant_dt_fields [OF f _ this digits_val_nat_digits] y show ?thesis
    by (simp add: strftime_ymdhms_def f)
qed

section \<open>strptime\<close>

lemma digit_char_0: "digit_char 0 = CHR ''0''"
proof -
  have "of_char (CHR ''0'') = (48::nat)" by simp
  then show ?thesis by (metis char_of_char digit_char_def add_0_right)
qed

lemma digit_char_not_space: "k < 10 \<Longrightarrow> digit_char k \<noteq> CHR '' ''"
proof
  assume "k < 10" and "digit_char k = CHR '' ''"
  then have "of_char (digit_char k) = (of_char (CHR '' '') :: nat)" by simp
  with \<open>k < 10\<close> show False by (simp add: digit_char_def)
qed

lemma digit_val_zero: "digit_val (CHR ''0'') = Some 0"
  by (simp add: digit_val_def)

lemma pad2_chars: "n < 100 \<Longrightarrow> pad2 n = [digit_char (n div 10), digit_char (n mod 10)]"
proof (cases "n < 10")
  case True
  then show ?thesis by (simp add: pad2_def nat_digits.simps [of n] digit_char_0)
next
  case False
  assume "n < 100"
  then have "n div 10 < 10" by (intro less_mult_imp_div_less) simp
  with False show ?thesis
    by (simp add: pad2_def nat_digits.simps [of n] nat_digits.simps [of "n div 10"])
qed

lemmas digit_in_simps = digit_in_def digit_val_char digit_val_zero digit_char_0 digit_char_not_space

lemma re_m_pad2:
  assumes "1 \<le> m" and "m \<le> 12"
  shows "\<exists>xs. re_m (pad2 m @ r) = (m, r) # xs"
proof (cases "m < 10")
  case True
  then have "m div 10 = 0" "m mod 10 = m" by simp_all
  with True assms show ?thesis by (simp add: pad2_chars re_m_def digit_in_simps)
next
  case False
  then have m: "m div 10 = 1" using assms by simp
  then have "m mod 10 = m - 10" using mod_div_mult_eq [of m 10] by arith
  note m this
  with False assms show ?thesis by (simp add: pad2_chars re_m_def digit_in_simps)
qed

lemma re_d_pad2:
  assumes "1 \<le> d" and "d \<le> 31"
  shows "\<exists>xs. re_d (pad2 d @ r) = (d, r) # xs"
proof -
  have c: "d div 10 < 10" "d mod 10 < 10" "10 * (d div 10) + d mod 10 = d" using assms by simp_all
  consider "d < 10" | "10 \<le> d" "d < 30" | "30 \<le> d" by linarith
  then show ?thesis
  proof cases
    case 1
    then have "d div 10 = 0" by simp
    with 1 c assms show ?thesis by (simp add: pad2_chars re_d_def digit_in_simps)
  next
    case 2
    then have "1 \<le> d div 10" "d div 10 \<le> 2" by (simp_all add: div_le_mono [of 10 d 10, simplified]
      less_mult_imp_div_less)
    with 2 c assms show ?thesis by (simp add: pad2_chars re_d_def digit_in_simps)
  next
    case 3
    then have d: "d div 10 = 3" using assms by simp
    then have "d mod 10 \<le> 1" using mod_div_mult_eq [of d 10] assms by arith
    note d this
    with 3 c assms show ?thesis by (simp add: pad2_chars re_d_def digit_in_simps)
  qed
qed

lemma re_ymd_iso_date:
  assumes "1 \<le> m" "m \<le> 12" "1 \<le> d" "d \<le> 31" "y < 10000"
  shows "re_ymd (pad4 y @ ''-'' @ pad2 m @ ''-'' @ pad2 d) = Some ((y, m, d), [])"
proof -
  obtain xs where m: "re_m (pad2 m @ ''-'' @ pad2 d) = (m, ''-'' @ pad2 d) # xs"
    using re_m_pad2 [OF assms(1,2)] by blast
  obtain ys where d: "re_d (pad2 d @ []) = (d, []) # ys"
    using re_d_pad2 [OF assms(3,4)] by blast
  have "re_Y (pad4 y @ ''-'' @ pad2 m @ ''-'' @ pad2 d) = Some (y, ''-'' @ pad2 m @ ''-'' @ pad2 d)"
    using length_pad4 [OF assms(5)] by (simp add: re_Y_def digits_val_pad4)
  with m d show ?thesis by (simp add: re_ymd_def lit_def)
qed

lemma valid_date_bounds:
  "valid_date (y, m, d) \<Longrightarrow> 1 \<le> m \<and> m \<le> 12 \<and> 1 \<le> d \<and> d \<le> 31"
  using month_length_le_31 [of y m] by (simp add: valid_date_def)

lemma strptime_ymd_iso_date:
  assumes "check_date_fields (int y, int m, int d)"
  shows "strptime_ymd (pad4 y @ ''-'' @ pad2 m @ ''-'' @ pad2 d) = Some (epoch_days (int y, int m, int d) * 86400)"
proof -
  from assms have "int y \<le> 9999" and v: "valid_date (int y, int m, int d)"
    by (simp_all add: check_date_fields_def)
  with valid_date_bounds [OF v] have "1 \<le> m" "m \<le> 12" "1 \<le> d" "d \<le> 31" "y < 10000" by simp_all
  from re_ymd_iso_date [OF this] assms show ?thesis by (simp add: strptime_ymd_def)
qed

end
