(* ===== verification/Battery.thy ===== *)
theory Battery
  imports Calendar
begin

text \<open>
  The core of \<open>src/virtualBattery_to_ha.py\<close>: the hourly loop of lines 157--210. It
  walks the injection and consumption curves pairwise (\<open>zip\<close>), turns the two
  cumulative indices into the energy injected and consumed in the hour, credits the
  injection to the virtual battery's stock and serves the consumption from the stock,
  the shortfall going to the grid (Enedis). Each hour appends one record to each of
  the three output lists.

  The loop-carried variables are the record \<open>battery\<close>; one hour is
  \<open>hour_state\<close>, composed of \<open>read_hour\<close> (lines 175--178), \<open>charge\<close>
  (line 183) and \<open>discharge\<close> (lines 188--201); the output lists are the record
  \<open>stats\<close>, appended by \<open>emit\<close> (lines 203--210); the loop is \<open>hour_loop\<close> and the
  whole of lines 157--210 is \<open>simulate\<close>. Values are in an arbitrary linearly ordered
  ring, so the theorems hold for Python's integers and, read as exact arithmetic, for
  its floats.
\<close>

section \<open>State and data\<close>

text \<open>The five variables the loop reads and writes.\<close>

record 'a battery =
  stock :: 'a               \<comment> \<open>\<open>previousBatteryStock\<close> (Wh)\<close>
  battery_out :: 'a         \<comment> \<open>\<open>previousBatteryOut\<close>, cumulative discharge\<close>
  enedis_out :: 'a          \<comment> \<open>\<open>previousEnedisOut\<close>, cumulative grid draw\<close>
  injection_index :: 'a     \<comment> \<open>\<open>previousInjectionIndex\<close>\<close>
  consumption_index :: 'a   \<comment> \<open>\<open>previousConsumtionIndex\<close>\<close>

text \<open>One hourly statistic of a curve: the \<open>start_ts\<close> and \<open>sum\<close> keys the loop reads.\<close>

record 'a sample =
  start_ts :: int
  sum_val :: 'a

text \<open>One emitted record, \<open>{"start": ..., "state"/"sum": ...}\<close>.\<close>

record 'a stat_rec =
  rec_start :: string
  rec_value :: 'a

text \<open>The three output lists of lines 158--160.\<close>

record 'a stats =
  stock_list :: "'a stat_rec list"    \<comment> \<open>\<open>statsBatteryStockList\<close>\<close>
  out_list :: "'a stat_rec list"      \<comment> \<open>\<open>statsBatteryOutList\<close>\<close>
  enedis_list :: "'a stat_rec list"   \<comment> \<open>\<open>statsEnedisOutList\<close>\<close>

definition empty_stats :: "'a stats" where
  "empty_stats = \<lparr>stock_list = [], out_list = [], enedis_list = []\<rparr>"

section \<open>One hour\<close>

text \<open>
  Lines 175--178: the hour's energies are differences of cumulative indices, and the
  indices move on to the samples just read. Returns the injected energy, the consumed
  energy and the updated state.
\<close>

definition read_hour ::
  "'a::linordered_idom battery \<Rightarrow> 'a sample \<Rightarrow> 'a sample \<Rightarrow> 'a \<times> 'a \<times> 'a battery" where
  "read_hour b i c =
     (sum_val i - injection_index b,
      sum_val c - consumption_index b,
      b\<lparr>injection_index := sum_val i, consumption_index := sum_val c\<rparr>)"

text \<open>Line 183: the injection is credited to the stock in full (no capacity).\<close>

definition charge :: "'a::linordered_idom \<Rightarrow> 'a battery \<Rightarrow> 'a battery" where
  "charge injected b = b\<lparr>stock := stock b + injected\<rparr>"

text \<open>
  Lines 188--201: serve the consumption from the stock if it suffices; otherwise take
  the whole stock and draw the rest (\<open>energyTakenFromEnedis\<close>) from the grid.
\<close>

definition discharge :: "'a::linordered_idom \<Rightarrow> 'a battery \<Rightarrow> 'a battery" where
  "discharge consumed b =
     (if stock b \<ge> consumed
      then b\<lparr>stock := stock b - consumed, battery_out := battery_out b + consumed\<rparr>
      else
        (let taken = consumed - stock b
         in b\<lparr>battery_out := battery_out b + stock b,
              enedis_out := enedis_out b + taken,
              stock := 0\<rparr>))"

text \<open>Lines 174--201, in the code's order.\<close>

definition hour_state ::
  "'a::linordered_idom battery \<Rightarrow> 'a sample \<Rightarrow> 'a sample \<Rightarrow> 'a battery" where
  "hour_state b i c =
     (case read_hour b i c of (injected, consumed, b1) \<Rightarrow>
        discharge consumed (charge injected b1))"

text \<open>
  Lines 203, 206, 209: the \<open>start\<close> of a record,
  \<open>str(injectionDate.strftime('%Y-%m-%d %H:%M:%S')+GMT)\<close>.
\<close>

definition stat_start :: "int \<Rightarrow> string" where
  "stat_start injectionDate = strftime_ymdhms injectionDate @ GMT"

text \<open>Lines 203--210: one record per output list, stamped with the hour's start.\<close>

definition emit :: "'a stats \<Rightarrow> string \<Rightarrow> 'a battery \<Rightarrow> 'a stats" where
  "emit st t b =
     st\<lparr>stock_list := stock_list st @ [\<lparr>rec_start = t, rec_value = stock b\<rparr>],
        out_list := out_list st @ [\<lparr>rec_start = t, rec_value = battery_out b\<rparr>],
        enedis_list := enedis_list st @ [\<lparr>rec_start = t, rec_value = enedis_out b\<rparr>]\<rparr>"

section \<open>The loop\<close>

text \<open>
  Lines 163--210: the \<open>for\<close> loop over \<open>zip(injectionDataList,
  consumptionDataList)\<close>. Both timestamps are read as \<open>+03:00\<close> datetimes
  (lines 164--165, which raise out of the years 1--9999); a pair whose datetimes
  differ stops the script (\<open>exit(1)\<close>, line 169) with nothing written.
\<close>

fun hour_loop ::
  "'a::linordered_idom battery \<Rightarrow> 'a stats \<Rightarrow> ('a sample \<times> 'a sample) list
   \<Rightarrow> ('a battery \<times> 'a stats) result" where
  "hour_loop b st [] = Inr (b, st)"
| "hour_loop b st ((i, c) # ps) =
     (case fromtimestamp_gmt3 (start_ts i) of
        None \<Rightarrow> Inl DatetimeOutOfRange
      | Some injectionDate \<Rightarrow>
          (case fromtimestamp_gmt3 (start_ts c) of
             None \<Rightarrow> Inl DatetimeOutOfRange
           | Some consumptionDate \<Rightarrow>
               (if injectionDate \<noteq> consumptionDate then Inl DateMismatch
                else (let b' = hour_state b i c
                      in hour_loop b' (emit st (stat_start injectionDate) b') ps))))"

text \<open>Lines 157--163: the three lists start empty; Python's \<open>zip\<close> is HOL's \<open>zip\<close>.\<close>

definition simulate ::
  "'a::linordered_idom battery \<Rightarrow> 'a sample list \<Rightarrow> 'a sample list
   \<Rightarrow> ('a battery \<times> 'a stats) result" where
  "simulate b injs conss = hour_loop b empty_stats (zip injs conss)"

text \<open>
  The checks of lines 164--169 on one pair, in the code's order: the error they
  raise, or \<open>None\<close> when the hour is processed.
\<close>

definition pair_error :: "'a sample \<times> 'a sample \<Rightarrow> py_error option" where
  "pair_error p =
     (case p of (i, c) \<Rightarrow>
        (case (fromtimestamp_gmt3 (start_ts i), fromtimestamp_gmt3 (start_ts c)) of
           (None, _) \<Rightarrow> Some DatetimeOutOfRange
         | (_, None) \<Rightarrow> Some DatetimeOutOfRange
         | (Some di, Some dc) \<Rightarrow> (if di \<noteq> dc then Some DateMismatch else None)))"

section \<open>Abstract specification of one hour and of a run\<close>

text \<open>
  The contract of \<open>spec.md\<close> (sections 3 and 4.1) for one hour with energies
  \<open>injected\<close> and \<open>consumed\<close>: the battery delivers
  \<open>d = min consumed (stock + injected)\<close>, keeps the rest of what it held plus the
  injection, and the grid supplies \<open>consumed - d\<close>.
\<close>

definition hour_spec :: "'a::linordered_idom battery \<Rightarrow> 'a \<Rightarrow> 'a \<Rightarrow> 'a battery" where
  "hour_spec b injected consumed =
     (let avail = stock b + injected; d = min consumed avail
      in b\<lparr>stock := avail - d, battery_out := battery_out b + d,
           enedis_out := enedis_out b + (consumed - d)\<rparr>)"

text \<open>
  The same contract as a state machine: an hour whose two samples pass the checks of
  lines 164--169 (\<open>pair_error\<close> below) either serves the whole consumption from the battery or drains it and
  bills the remainder to the grid. \<open>runs b ps b'\<close>: the hours \<open>ps\<close> lead from
  \<open>b\<close> to \<open>b'\<close>.
\<close>

inductive hour_step :: "'a::linordered_idom battery \<Rightarrow> 'a sample \<times> 'a sample \<Rightarrow> 'a battery \<Rightarrow> bool" where
  serve: "pair_error (i, c) = None \<Longrightarrow>
    sum_val c - consumption_index b \<le> stock b + (sum_val i - injection_index b) \<Longrightarrow>
    b' = b\<lparr>stock := stock b + (sum_val i - injection_index b) - (sum_val c - consumption_index b),
            battery_out := battery_out b + (sum_val c - consumption_index b),
            injection_index := sum_val i, consumption_index := sum_val c\<rparr> \<Longrightarrow>
    hour_step b (i, c) b'"
| drain: "pair_error (i, c) = None \<Longrightarrow>
    stock b + (sum_val i - injection_index b) < sum_val c - consumption_index b \<Longrightarrow>
    b' = b\<lparr>stock := 0,
            battery_out := battery_out b + (stock b + (sum_val i - injection_index b)),
            enedis_out := enedis_out b
              + ((sum_val c - consumption_index b) - (stock b + (sum_val i - injection_index b))),
            injection_index := sum_val i, consumption_index := sum_val c\<rparr> \<Longrightarrow>
    hour_step b (i, c) b'"

inductive runs :: "'a::linordered_idom battery \<Rightarrow> ('a sample \<times> 'a sample) list \<Rightarrow> 'a battery \<Rightarrow> bool" where
  runs_nil: "runs b [] b"
| runs_cons: "hour_step b p b' \<Longrightarrow> runs b' ps b'' \<Longrightarrow> runs b (p # ps) b''"

section \<open>Reference form of the loop\<close>

text \<open>
  The loop without its accumulators: the states after each hour, the error of the
  first pair that fails the checks of lines 164--169, and the records a list of
  states produces.
\<close>

fun hour_trace :: "'a::linordered_idom battery \<Rightarrow> ('a sample \<times> 'a sample) list \<Rightarrow> 'a battery list" where
  "hour_trace b [] = []"
| "hour_trace b ((i, c) # ps) = (let b' = hour_state b i c in b' # hour_trace b' ps)"

definition loop_error :: "('a sample \<times> 'a sample) list \<Rightarrow> py_error option" where
  "loop_error ps = first_some pair_error ps"

definition recs :: "('b \<Rightarrow> 'a) \<Rightarrow> ('a sample \<times> 'a sample) list \<Rightarrow> 'b list \<Rightarrow> 'a stat_rec list" where
  "recs f ps bs =
     map2 (\<lambda>p b. \<lparr>rec_start = stat_start (start_ts (fst p) + GMT_INT * 3600), rec_value = f b\<rparr>) ps bs"

section \<open>A concrete day\<close>

text \<open>
  Three hours of 2024-03-18 (local time 01:00, 02:00, 03:00 at \<open>+03:00\<close>) from a stock of 5000 Wh: 2000 Wh injected and 3000 Wh consumed (served
  from the battery), nothing injected and 1000 Wh consumed (served), then 500 Wh
  injected and 8000 Wh consumed (the battery is drained, 4500 Wh come from the grid).
  The first two hours are scenarios 1 and 4 of \<open>spec.md\<close>.
\<close>

definition demo_battery :: "int battery" where
  "demo_battery = \<lparr>stock = 5000, battery_out = 0, enedis_out = 0,
                    injection_index = 10000, consumption_index = 20000\<rparr>"

definition demo_injs :: "int sample list" where
  "demo_injs = [\<lparr>start_ts = 1710712800, sum_val = 12000\<rparr>, \<lparr>start_ts = 1710716400, sum_val = 12000\<rparr>,
                \<lparr>start_ts = 1710720000, sum_val = 12500\<rparr>]"

definition demo_conss :: "int sample list" where
  "demo_conss = [\<lparr>start_ts = 1710712800, sum_val = 23000\<rparr>, \<lparr>start_ts = 1710716400, sum_val = 24000\<rparr>,
                 \<lparr>start_ts = 1710720000, sum_val = 32000\<rparr>]"

definition demo_final :: "int battery" where
  "demo_final = \<lparr>stock = 0, battery_out = 7500, enedis_out = 4500,
                  injection_index = 12500, consumption_index = 32000\<rparr>"

definition demo_stats :: "int stats" where
  "demo_stats =
     \<lparr>stock_list = [\<lparr>rec_start = stat_start 1710723600, rec_value = 4000\<rparr>, \<lparr>rec_start = stat_start 1710727200, rec_value = 3000\<rparr>,
                   \<lparr>rec_start = stat_start 1710730800, rec_value = 0\<rparr>],
      out_list = [\<lparr>rec_start = stat_start 1710723600, rec_value = 3000\<rparr>, \<lparr>rec_start = stat_start 1710727200, rec_value = 4000\<rparr>,
                  \<lparr>rec_start = stat_start 1710730800, rec_value = 7500\<rparr>],
      enedis_list = [\<lparr>rec_start = stat_start 1710723600, rec_value = 0\<rparr>, \<lparr>rec_start = stat_start 1710727200, rec_value = 0\<rparr>,
                     \<lparr>rec_start = stat_start 1710730800, rec_value = 4500\<rparr>]\<rparr>"

declare read_hour_def [model_defs] charge_def [model_defs] discharge_def [model_defs]
  hour_state_def [model_defs] emit_def [model_defs] simulate_def [model_defs]
  empty_stats_def [model_defs]

lemmas demo_defs = demo_battery_def demo_injs_def demo_conss_def demo_final_def demo_stats_def

inductive_cases hour_stepE: "hour_step b (i, c) b'"
inductive_simps runs_Nil_simp: "runs b [] b'"
inductive_simps runs_Cons_simp: "runs b (p # ps) b''"

section \<open>One hour: closed form and conservation\<close>

text \<open>The code's two branches compute the \<open>min\<close> form of the contract.\<close>

lemma discharge_charge_spec:
  "discharge consumed (charge injected b) = hour_spec b injected consumed"
  by (auto simp: discharge_def charge_def hour_spec_def Let_def min_def)

lemma hour_state_fields:
  "stock (hour_state b i c) = stock b + (sum_val i - injection_index b)
     - min (sum_val c - consumption_index b) (stock b + (sum_val i - injection_index b))"
  "battery_out (hour_state b i c) = battery_out b
     + min (sum_val c - consumption_index b) (stock b + (sum_val i - injection_index b))"
  "enedis_out (hour_state b i c) = enedis_out b + ((sum_val c - consumption_index b)
     - min (sum_val c - consumption_index b) (stock b + (sum_val i - injection_index b)))"
  "injection_index (hour_state b i c) = sum_val i"
  "consumption_index (hour_state b i c) = sum_val c"
  by (simp_all add: hour_state_def read_hour_def discharge_charge_spec hour_spec_def Let_def)

lemma hour_state_stock_nonneg: "0 \<le> stock (hour_state b i c)"
  by (simp add: hour_state_fields)

lemma hour_state_enedis_mono: "enedis_out b \<le> enedis_out (hour_state b i c)"
  by (simp add: hour_state_fields)

lemma hour_state_out_mono:
  "0 \<le> stock b \<Longrightarrow> injection_index b \<le> sum_val i \<Longrightarrow> consumption_index b \<le> sum_val c
   \<Longrightarrow> battery_out b \<le> battery_out (hour_state b i c)"
  by (simp add: hour_state_fields)

text \<open>
  C1. Energy is conserved in every hour: the stock after the hour plus what the
  battery delivered equals the stock before plus the injection, and what the battery
  delivered plus what the grid supplied equals the consumption.
\<close>

theorem hour_conservation:
  "stock (hour_state b i c) + (battery_out (hour_state b i c) - battery_out b)
     = stock b + (sum_val i - injection_index b)
   \<and> (battery_out (hour_state b i c) - battery_out b) + (enedis_out (hour_state b i c) - enedis_out b)
     = sum_val c - consumption_index b"
  by (simp add: hour_state_fields)

text \<open>
  C2. One iteration of the loop body implements the per-hour contract: with the
  indices moved on to the new samples, the state is \<open>hour_spec\<close> of the energies
  read from the two curves.
\<close>

theorem hour_state_refines:
  "hour_state b i c =
     hour_spec (b\<lparr>injection_index := sum_val i, consumption_index := sum_val c\<rparr>)
       (sum_val i - injection_index b) (sum_val c - consumption_index b)"
  by (simp add: hour_state_def read_hour_def discharge_charge_spec)

text \<open>
  C16. The grid is used only once the battery is empty: in an hour where the grid
  draw grows, the battery has delivered everything it held after the injection and
  ends the hour at 0.
\<close>

theorem hour_grid_only_when_empty:
  assumes "enedis_out b < enedis_out (hour_state b i c)"
  shows "stock (hour_state b i c) = 0
       \<and> battery_out (hour_state b i c) - battery_out b = stock b + (sum_val i - injection_index b)"
  using assms by (auto simp: hour_state_fields min_def split: if_splits)

theorem hour_grid_only_when_empty_witness:
  "enedis_out (demo_final\<lparr>stock := 3000, battery_out := 4000, enedis_out := 0,
                injection_index := 12000, consumption_index := 24000\<rparr>)
     < enedis_out (hour_state (demo_final\<lparr>stock := 3000, battery_out := 4000, enedis_out := 0,
                injection_index := 12000, consumption_index := 24000\<rparr>) (demo_injs ! 2) (demo_conss ! 2))
   \<and> stock (hour_state (demo_final\<lparr>stock := 3000, battery_out := 4000, enedis_out := 0,
                injection_index := 12000, consumption_index := 24000\<rparr>) (demo_injs ! 2) (demo_conss ! 2)) = 0"
proof -
  let ?b = "demo_final\<lparr>stock := 3000, battery_out := 4000, enedis_out := 0,
                injection_index := 12000, consumption_index := 24000\<rparr>"
  have h: "enedis_out ?b < enedis_out (hour_state ?b (demo_injs ! 2) (demo_conss ! 2))"
    by (simp add: demo_defs model_defs)
  show ?thesis using h hour_grid_only_when_empty [OF h] by blast
qed

section \<open>The loop against its reference form\<close>

lemma pair_error_None:
  "pair_error (i, c) = None \<longleftrightarrow>
     start_ts i = start_ts c \<and> dt_min \<le> start_ts i \<and> start_ts i + GMT_INT * 3600 < dt_max"
  by (auto simp: pair_error_def fromtimestamp_gmt3_def Let_def split: option.splits if_splits)

lemma hour_loop_Cons:
  "hour_loop b st ((i, c) # ps) =
     (case pair_error (i, c) of
        Some e \<Rightarrow> Inl e
      | None \<Rightarrow> (let b' = hour_state b i c
                in hour_loop b' (emit st (stat_start (start_ts i + GMT_INT * 3600)) b') ps))"
  by (simp add: pair_error_def fromtimestamp_gmt3_def Let_def split: option.splits if_splits)

lemma loop_error_None: "loop_error ps = None \<longleftrightarrow> (\<forall>p \<in> set ps. pair_error p = None)"
  by (simp add: loop_error_def first_some_None)

lemma hour_loop_eq:
  "hour_loop b st ps =
     (case loop_error ps of
        Some e \<Rightarrow> Inl e
      | None \<Rightarrow> Inr (last (b # hour_trace b ps),
                   st\<lparr>stock_list := stock_list st @ recs stock ps (hour_trace b ps),
                      out_list := out_list st @ recs battery_out ps (hour_trace b ps),
                      enedis_list := enedis_list st @ recs enedis_out ps (hour_trace b ps)\<rparr>))"
proof (induction ps arbitrary: b st)
  case Nil
  then show ?case by (simp add: recs_def loop_error_def)
next
  case (Cons p ps)
  obtain i c where p: "p = (i, c)" by fastforce
  show ?case
    using Cons.IH
    by (simp add: p hour_loop_Cons recs_def emit_def Let_def loop_error_def
        del: hour_loop.simps split: option.splits)
qed

lemma length_hour_trace [simp]: "length (hour_trace b ps) = length ps"
  by (induction b ps rule: hour_trace.induct) (simp_all add: Let_def)

lemma length_recs [simp]: "length bs = length ps \<Longrightarrow> length (recs f ps bs) = length ps"
  by (simp add: recs_def)

lemma recs_values:
  "length bs = length ps \<Longrightarrow> map rec_value (recs f ps bs) = map f bs"
  by (induction ps arbitrary: bs) (auto simp: recs_def length_Suc_conv)

lemma recs_starts:
  "length bs = length ps \<Longrightarrow>
     map rec_start (recs f ps bs) = map (\<lambda>s. stat_start (start_ts s + GMT_INT * 3600)) (map fst ps)"
  by (induction ps arbitrary: bs) (auto simp: recs_def length_Suc_conv)

lemma simulate_Inr_D:
  assumes "simulate b injs conss = Inr (b', st)"
  shows "loop_error (zip injs conss) = None \<and> b' = last (b # hour_trace b (zip injs conss))
     \<and> st = \<lparr>stock_list = recs stock (zip injs conss) (hour_trace b (zip injs conss)),
             out_list = recs battery_out (zip injs conss) (hour_trace b (zip injs conss)),
             enedis_list = recs enedis_out (zip injs conss) (hour_trace b (zip injs conss))\<rparr>"
  using assms unfolding simulate_def hour_loop_eq [of b empty_stats]
  by (cases "loop_error (zip injs conss)") (simp_all add: empty_stats_def)

text \<open>
  The \<open>start\<close> written for a processed hour is read by the store as the hour's
  timestamp (when its year has four digits, as \<open>%Y\<close> writes it unpadded).
\<close>

lemma start_read_back:
  assumes "pair_error (i, c) = None" and "epoch_days (1000, 1, 1) * 86400 \<le> start_ts i + GMT_INT * 3600"
  shows "iso_instant (stat_start (start_ts i + GMT_INT * 3600)) = Some (start_ts i)"
  using iso_instant_strftime [OF assms(2)] assms(1)
  by (simp add: stat_start_def pair_error_None)

section \<open>The loop against the state machine\<close>

lemma hour_step_iff:
  "hour_step b (i, c) b' \<longleftrightarrow> pair_error (i, c) = None \<and> b' = hour_state b i c"
proof
  assume "hour_step b (i, c) b'"
  then show "pair_error (i, c) = None \<and> b' = hour_state b i c"
    by (cases rule: hour_stepE)
       (auto simp: hour_state_def read_hour_def discharge_charge_spec hour_spec_def Let_def min_def)
next
  assume "pair_error (i, c) = None \<and> b' = hour_state b i c"
  then show "hour_step b (i, c) b'"
    by (cases "sum_val c - consumption_index b \<le> stock b + (sum_val i - injection_index b)")
       (auto simp: hour_state_def read_hour_def discharge_charge_spec hour_spec_def Let_def min_def
             intro: hour_step.intros)
qed

lemma runs_iff_hour_loop:
  "runs b ps b' \<longleftrightarrow> (\<exists>st'. hour_loop b st ps = Inr (b', st'))"
proof (induction ps arbitrary: b st)
  case Nil
  then show ?case by (auto simp: runs_Nil_simp)
next
  case (Cons p ps)
  obtain i c where p: "p = (i, c)" by fastforce
  show ?case
    using Cons.IH
    by (auto simp: p runs_Cons_simp hour_step_iff hour_loop_Cons Let_def
        simp del: hour_loop.simps split: option.splits)
qed

lemma hour_step_conserves:
  assumes "hour_step b p b'"
  shows "stock b' + battery_out b' - injection_index b' = stock b + battery_out b - injection_index b"
    and "battery_out b' + enedis_out b' - consumption_index b'
           = battery_out b + enedis_out b - consumption_index b"
  using assms by (auto elim!: hour_step.cases simp: algebra_simps)

lemma runs_conserves:
  assumes "runs b ps b'"
  shows "stock b' + battery_out b' - injection_index b' = stock b + battery_out b - injection_index b
       \<and> battery_out b' + enedis_out b' - consumption_index b'
           = battery_out b + enedis_out b - consumption_index b"
  using assms
proof (induction rule: runs.induct)
  case (runs_nil b)
  then show ?case by simp
next
  case (runs_cons b p b' ps b'')
  with hour_step_conserves [OF runs_cons.hyps(1)] show ?case by simp
qed

text \<open>
  C9. The loop implements the state machine of the contract: \<open>simulate\<close> returns
  the state \<open>b'\<close> exactly when the paired hours lead from \<open>b\<close> to \<open>b'\<close> by
  serve and drain steps.
\<close>

theorem simulate_refines_runs:
  "(\<exists>st. simulate b injs conss = Inr (b', st)) \<longleftrightarrow> runs b (zip injs conss) b'"
  by (simp add: simulate_def runs_iff_hour_loop [where st = empty_stats])

section \<open>Properties of the trace\<close>

lemma hour_trace_stock_nonneg: "b' \<in> set (hour_trace b ps) \<Longrightarrow> 0 \<le> stock b'"
  by (induction b ps rule: hour_trace.induct) (auto simp: Let_def hour_state_stock_nonneg)

lemma hour_trace_enedis_sorted: "sorted (enedis_out b # map enedis_out (hour_trace b ps))"
proof (induction b ps rule: hour_trace.induct)
  case (1 b)
  then show ?case by simp
next
  case (2 b i c ps)
  then show ?case
    by (simp only: hour_trace.simps Let_def list.map sorted2) (simp add: hour_state_enedis_mono)
qed

lemma hour_trace_out_sorted:
  "0 \<le> stock b \<Longrightarrow> sorted (injection_index b # map (sum_val \<circ> fst) ps)
   \<Longrightarrow> sorted (consumption_index b # map (sum_val \<circ> snd) ps)
   \<Longrightarrow> sorted (battery_out b # map battery_out (hour_trace b ps))"
proof (induction b ps rule: hour_trace.induct)
  case (1 b)
  then show ?case by simp
next
  case (2 b i c ps)
  let ?b' = "hour_state b i c"
  from "2.prems" have mono: "battery_out b \<le> battery_out ?b'"
    by (simp add: hour_state_out_mono)
  from "2.prems" have "sorted (battery_out ?b' # map battery_out (hour_trace ?b' ps))"
    by (intro "2.IH") (simp_all add: hour_state_stock_nonneg hour_state_fields)
  with mono show ?case by (simp only: hour_trace.simps Let_def list.map sorted2)
qed

lemma recs_last:
  "length bs = length ps \<Longrightarrow> ps \<noteq> [] \<Longrightarrow>
     last (recs f ps bs) = \<lparr>rec_start = stat_start (start_ts (fst (last ps)) + GMT_INT * 3600), rec_value = f (last bs)\<rparr>"
  by (induction ps arbitrary: bs) (auto simp: recs_def length_Suc_conv)

lemma simulate_last_record:
  assumes "simulate b injs conss = Inr (b', st)" and "stock_list st \<noteq> []"
  shows "\<exists>c. pair_error (last (take (length conss) injs), c) = None
     \<and> last (stock_list st) = \<lparr>rec_start = stat_start (start_ts (last (take (length conss) injs)) + GMT_INT * 3600),
                               rec_value = stock b'\<rparr>
     \<and> last (out_list st) = \<lparr>rec_start = stat_start (start_ts (last (take (length conss) injs)) + GMT_INT * 3600),
                               rec_value = battery_out b'\<rparr>
     \<and> last (enedis_list st) = \<lparr>rec_start = stat_start (start_ts (last (take (length conss) injs)) + GMT_INT * 3600),
                               rec_value = enedis_out b'\<rparr>"
proof -
  let ?ps = "zip injs conss"
  from simulate_Inr_D [OF assms(1)] have ok: "\<forall>p \<in> set ?ps. pair_error p = None" and
    b': "b' = last (b # hour_trace b ?ps)" and st: "stock_list st = recs stock ?ps (hour_trace b ?ps)"
      "out_list st = recs battery_out ?ps (hour_trace b ?ps)"
      "enedis_list st = recs enedis_out ?ps (hour_trace b ?ps)"
    by (simp_all add: loop_error_None)
  from assms(2) st have ne: "?ps \<noteq> []" by (auto simp: recs_def)
  then have "hour_trace b ?ps \<noteq> []" by (metis length_0_conv length_hour_trace)
  with b' st ne have r: "last (stock_list st) =
      \<lparr>rec_start = stat_start (start_ts (fst (last ?ps)) + GMT_INT * 3600), rec_value = stock b'\<rparr>"
    "last (out_list st) =
      \<lparr>rec_start = stat_start (start_ts (fst (last ?ps)) + GMT_INT * 3600), rec_value = battery_out b'\<rparr>"
    "last (enedis_list st) =
      \<lparr>rec_start = stat_start (start_ts (fst (last ?ps)) + GMT_INT * 3600), rec_value = enedis_out b'\<rparr>"
    by (simp_all add: recs_last)
  have f: "fst (last ?ps) = last (take (length conss) injs)"
    using ne last_map [of ?ps fst] by (simp add: map_fst_zip_take)
  have "pair_error (last ?ps) = None" using ok ne by simp
  then have "pair_error (last (take (length conss) injs), snd (last ?ps)) = None"
    using f by (metis prod.collapse)
  with r f show ?thesis by auto
qed

section \<open>Guarantees of the loop\<close>

lemma demo_simulate:
  "simulate demo_battery demo_injs demo_conss = Inr (demo_final, demo_stats)"
  by (simp add: demo_defs model_defs)

text \<open>
  C3. Every battery-stock record the loop emits is non-negative, whatever the inputs
  (even a decreasing meter index or a negative starting stock).
\<close>

theorem simulate_stock_nonneg:
  assumes "simulate b injs conss = Inr (b', st)"
  shows "\<forall>r \<in> set (stock_list st). 0 \<le> rec_value r"
proof -
  let ?tr = "hour_trace b (zip injs conss)"
  have "map rec_value (stock_list st) = map stock ?tr"
    using simulate_Inr_D [OF assms] by (simp add: recs_values)
  moreover have "\<forall>v \<in> set (map stock ?tr). 0 \<le> v"
    using hour_trace_stock_nonneg by auto
  ultimately have "\<forall>v \<in> set (map rec_value (stock_list st)). 0 \<le> v"
    by simp
  then show ?thesis by simp
qed

theorem simulate_stock_nonneg_witness:
  "simulate demo_battery demo_injs demo_conss = Inr (demo_final, demo_stats)
   \<and> list_all (\<lambda>r. 0 \<le> rec_value r) (stock_list demo_stats)"
  using demo_simulate simulate_stock_nonneg [OF demo_simulate] by (simp add: list_all_iff)

text \<open>
  C4. The cumulative grid draw never decreases: the emitted Enedis series, preceded by
  the starting index, is sorted, whatever the inputs.
\<close>

theorem simulate_enedis_sorted:
  assumes "simulate b injs conss = Inr (b', st)"
  shows "sorted (enedis_out b # map rec_value (enedis_list st))"
  using hour_trace_enedis_sorted simulate_Inr_D [OF assms]
  by (simp add: recs_values)

theorem simulate_enedis_sorted_witness:
  "simulate demo_battery demo_injs demo_conss = Inr (demo_final, demo_stats)
   \<and> sorted (enedis_out demo_battery # map rec_value (enedis_list demo_stats))"
  using demo_simulate simulate_enedis_sorted [OF demo_simulate] by blast

text \<open>
  C5. The cumulative battery discharge never decreases, provided the starting stock is
  non-negative and both meter indices never decrease (no meter reset).
\<close>

theorem simulate_out_sorted:
  assumes "simulate b injs conss = Inr (b', st)"
    and "0 \<le> stock b"
    and "sorted (injection_index b # map sum_val injs)"
    and "sorted (consumption_index b # map sum_val conss)"
  shows "sorted (battery_out b # map rec_value (out_list st))"
proof -
  let ?ps = "zip injs conss"
  have "sorted (injection_index b # take (length conss) (map sum_val injs))"
    using assms(3) by (rule sorted_Cons_take)
  then have inj: "sorted (injection_index b # map (sum_val \<circ> fst) ?ps)"
    by (simp add: map_fst_zip_take take_map flip: map_map)
  have "sorted (consumption_index b # take (length injs) (map sum_val conss))"
    using assms(4) by (rule sorted_Cons_take)
  then have cons: "sorted (consumption_index b # map (sum_val \<circ> snd) ?ps)"
    by (simp add: map_snd_zip_take take_map min.commute flip: map_map)
  from assms(2) inj cons have "sorted (battery_out b # map battery_out (hour_trace b ?ps))"
    by (rule hour_trace_out_sorted)
  then show ?thesis
    using simulate_Inr_D [OF assms(1)] by (simp add: recs_values)
qed

theorem simulate_out_sorted_witness:
  "simulate demo_battery demo_injs demo_conss = Inr (demo_final, demo_stats)
   \<and> 0 \<le> stock demo_battery
   \<and> sorted (injection_index demo_battery # map sum_val demo_injs)
   \<and> sorted (consumption_index demo_battery # map sum_val demo_conss)
   \<and> sorted (battery_out demo_battery # map rec_value (out_list demo_stats))"
proof -
  have h: "0 \<le> stock demo_battery"
    "sorted (injection_index demo_battery # map sum_val demo_injs)"
    "sorted (consumption_index demo_battery # map sum_val demo_conss)"
    by (simp_all add: demo_defs)
  show ?thesis
    using demo_simulate h simulate_out_sorted [OF demo_simulate h] by blast
qed

text \<open>
  C6. The three output series have one record per processed hour, in the order of the
  input and stamped with the \<open>+03:00\<close> wall-clock time of its injection sample; the
  hours processed are the first \<open>min (length injs) (length conss)\<close> (Python's
  \<open>zip\<close> drops the rest).
\<close>

theorem simulate_alignment:
  assumes "simulate b injs conss = Inr (b', st)"
  shows "length (stock_list st) = min (length injs) (length conss)
       \<and> map rec_start (stock_list st) = map (\<lambda>s. stat_start (start_ts s + GMT_INT * 3600)) (take (length conss) injs)
       \<and> map rec_start (out_list st) = map rec_start (stock_list st)
       \<and> map rec_start (enedis_list st) = map rec_start (stock_list st)"
  using simulate_Inr_D [OF assms]
  by (simp add: recs_starts map_fst_zip_take flip: map_map)

theorem simulate_alignment_witness:
  "simulate demo_battery demo_injs (take 2 demo_conss)
     = Inr (demo_final\<lparr>stock := 3000, battery_out := 4000, enedis_out := 0,
                        injection_index := 12000, consumption_index := 24000\<rparr>,
            \<lparr>stock_list = take 2 (stock_list demo_stats), out_list = take 2 (out_list demo_stats),
             enedis_list = take 2 (enedis_list demo_stats)\<rparr>)
   \<and> length (take 2 (stock_list demo_stats)) = min (length demo_injs) (length (take 2 demo_conss))
   \<and> map rec_start (take 2 (stock_list demo_stats)) = [stat_start 1710723600, stat_start 1710727200]"
proof -
  have run: "simulate demo_battery demo_injs (take 2 demo_conss)
     = Inr (demo_final\<lparr>stock := 3000, battery_out := 4000, enedis_out := 0,
                        injection_index := 12000, consumption_index := 24000\<rparr>,
            \<lparr>stock_list = take 2 (stock_list demo_stats), out_list = take 2 (out_list demo_stats),
             enedis_list = take 2 (enedis_list demo_stats)\<rparr>)"
    by (simp add: demo_defs model_defs)
  have "map (\<lambda>s. stat_start (start_ts s + GMT_INT * 3600)) (take (length (take 2 demo_conss)) demo_injs)
      = [stat_start 1710723600, stat_start 1710727200]"
    by (simp add: demo_defs GMT_INT_def)
  with run simulate_alignment [OF run] show ?thesis by simp
qed

text \<open>
  C18. Every record the loop writes is read by the statistics store at the timestamp of
  the sample it comes from: the \<open>start\<close> strings of lines 203--209, the wall clock
  at \<open>GMT_INT\<close> hours (line 164) followed by the offset string \<open>GMT\<close> (line 33),
  name the hours processed once the store subtracts the offset written in the
  string (for years written with four digits).
\<close>

theorem simulate_starts_read_back:
  assumes "simulate b injs conss = Inr (b', st)"
    and "list_all (\<lambda>s. epoch_days (1000, 1, 1) * 86400 \<le> start_ts s + GMT_INT * 3600)
           (take (length conss) injs)"
  shows "map (iso_instant \<circ> rec_start) (stock_list st) = map (Some \<circ> start_ts) (take (length conss) injs)"
proof -
  let ?ps = "zip injs conss"
  from simulate_Inr_D [OF assms(1)] have ok: "\<forall>p \<in> set ?ps. pair_error p = None"
    and st: "stock_list st = recs stock ?ps (hour_trace b ?ps)"
    by (simp_all add: loop_error_None)
  have "map rec_start (stock_list st) = map (\<lambda>s. stat_start (start_ts s + GMT_INT * 3600)) (take (length conss) injs)"
    using st recs_starts [of "hour_trace b ?ps" ?ps stock] by (simp add: map_fst_zip_take)
  then have "map iso_instant (map rec_start (stock_list st))
      = map iso_instant (map (\<lambda>s. stat_start (start_ts s + GMT_INT * 3600)) (take (length conss) injs))"
    by (rule arg_cong)
  then have "map (iso_instant \<circ> rec_start) (stock_list st)
      = map (\<lambda>s. iso_instant (stat_start (start_ts s + GMT_INT * 3600))) (take (length conss) injs)"
    by (simp add: comp_def)
  also have "\<dots> = map (Some \<circ> start_ts) (take (length conss) injs)"
  proof (rule map_cong [OF refl])
    fix i assume i: "i \<in> set (take (length conss) injs)"
    then have "i \<in> set (map fst ?ps)" by (simp add: map_fst_zip_take)
    then obtain c where "(i, c) \<in> set ?ps" by auto
    with ok have "pair_error (i, c) = None" by blast
    moreover have "epoch_days (1000, 1, 1) * 86400 \<le> start_ts i + GMT_INT * 3600"
      using assms(2) i by (simp add: list_all_iff)
    ultimately show "iso_instant (stat_start (start_ts i + GMT_INT * 3600)) = (Some \<circ> start_ts) i"
      by (simp add: start_read_back)
  qed
  finally show ?thesis .
qed

theorem simulate_starts_read_back_witness:
  "simulate demo_battery demo_injs demo_conss = Inr (demo_final, demo_stats)
   \<and> list_all (\<lambda>s. epoch_days (1000, 1, 1) * 86400 \<le> start_ts s + GMT_INT * 3600)
       (take (length demo_conss) demo_injs)
   \<and> map (iso_instant \<circ> rec_start) (stock_list demo_stats) = [Some 1710712800, Some 1710716400, Some 1710720000]"
proof -
  have h: "list_all (\<lambda>s. epoch_days (1000, 1, 1) * 86400 \<le> start_ts s + GMT_INT * 3600)
       (take (length demo_conss) demo_injs)"
    by (simp add: demo_defs GMT_INT_def epoch_days_def year_start_def month_start_def upto.simps)
  have "map (Some \<circ> start_ts) (take (length demo_conss) demo_injs) = [Some 1710712800, Some 1710716400, Some 1710720000]"
    by (simp add: demo_defs)
  with simulate_starts_read_back [OF demo_simulate h] demo_simulate h show ?thesis by simp
qed

text \<open>
  C7. The loop fails exactly at the first processed pair that fails the checks of
  lines 164--169, and with that pair's error: \<open>DatetimeOutOfRange\<close> when a
  timestamp falls outside the years 1--9999 at \<open>+03:00\<close>, otherwise
  \<open>DateMismatch\<close> when the two timestamps differ. It has no other error.
\<close>

theorem simulate_error:
  "simulate b injs conss = Inl e \<longleftrightarrow>
     (\<exists>k < min (length injs) (length conss).
        (\<forall>j < k. pair_error (injs ! j, conss ! j) = None) \<and> pair_error (injs ! k, conss ! k) = Some e)"
proof -
  have "simulate b injs conss = Inl e \<longleftrightarrow> loop_error (zip injs conss) = Some e"
    by (cases "loop_error (zip injs conss)") (simp_all add: simulate_def hour_loop_eq)
  then show ?thesis by (simp add: loop_error_def first_some_zip)
qed

theorem simulate_error_witness:
  "simulate demo_battery demo_injs (demo_conss[1 := \<lparr>start_ts = 1710716401, sum_val = 24000\<rparr>])
     = Inl DateMismatch"
proof -
  let ?c = "demo_conss[1 := \<lparr>start_ts = 1710716401, sum_val = 24000\<rparr>]"
  have h: "\<exists>k < min (length demo_injs) (length ?c).
      (\<forall>j < k. pair_error (demo_injs ! j, ?c ! j) = None) \<and> pair_error (demo_injs ! k, ?c ! k) = Some DateMismatch"
  proof (intro exI conjI allI impI)
    show "1 < min (length demo_injs) (length ?c)" by (simp add: demo_defs)
    show "pair_error (demo_injs ! 1, ?c ! 1) = Some DateMismatch"
      by (simp add: demo_defs pair_error_def model_defs)
    fix j :: nat
    assume "j < 1"
    then show "pair_error (demo_injs ! j, ?c ! j) = None"
      by (simp add: demo_defs pair_error_def model_defs)
  qed
  from simulate_error [THEN iffD2, OF h] show ?thesis .
qed

text \<open>
  C19. The loop runs to its end whenever every processed pair carries one timestamp
  that \<open>datetime\<close> can represent at \<open>+03:00\<close>: it then yields one record per
  processed hour in each series.
\<close>

theorem simulate_progress:
  assumes "\<forall>k < min (length injs) (length conss).
             start_ts (injs ! k) = start_ts (conss ! k) \<and> fromtimestamp_gmt3 (start_ts (injs ! k)) \<noteq> None"
  shows "\<exists>b' st. simulate b injs conss = Inr (b', st) \<and> length (stock_list st) = min (length injs) (length conss)"
proof -
  have "\<forall>p \<in> set (zip injs conss). pair_error p = None"
  proof
    fix p assume "p \<in> set (zip injs conss)"
    then obtain k where k: "k < min (length injs) (length conss)" "p = (injs ! k, conss ! k)"
      by (auto simp: set_zip)
    with assms show "pair_error p = None"
      by (auto simp: pair_error_None fromtimestamp_gmt3_def Let_def split: if_splits)
  qed
  then have "loop_error (zip injs conss) = None" by (simp add: loop_error_None)
  then show ?thesis by (simp add: simulate_def hour_loop_eq empty_stats_def)
qed

theorem simulate_progress_witness:
  "\<exists>b' st. simulate demo_battery demo_injs demo_conss = Inr (b', st) \<and> length (stock_list st) = 3"
proof -
  have h: "\<forall>k < min (length demo_injs) (length demo_conss).
      start_ts (demo_injs ! k) = start_ts (demo_conss ! k) \<and> fromtimestamp_gmt3 (start_ts (demo_injs ! k)) \<noteq> None"
  proof (intro allI impI)
    fix k :: nat assume "k < min (length demo_injs) (length demo_conss)"
    then have "k < 3" by (simp add: demo_defs)
    then have "k = 0 \<or> k = 1 \<or> k = 2" by arith
    then show "start_ts (demo_injs ! k) = start_ts (demo_conss ! k) \<and> fromtimestamp_gmt3 (start_ts (demo_injs ! k)) \<noteq> None"
      by (auto simp: demo_defs model_defs)
  qed
  have "min (length demo_injs) (length demo_conss) = 3" by (simp add: demo_defs)
  with simulate_progress [OF h] show ?thesis by simp
qed

text \<open>
  C8. Conservation over a whole run: the final stock plus everything the battery
  delivered equals the starting stock plus everything injected (the rise of the
  injection index), and everything delivered plus everything drawn from the grid
  equals everything consumed (the rise of the consumption index).
\<close>

theorem simulate_conservation:
  assumes "simulate b injs conss = Inr (b', st)"
  shows "stock b' + (battery_out b' - battery_out b) = stock b + (injection_index b' - injection_index b)
       \<and> (battery_out b' - battery_out b) + (enedis_out b' - enedis_out b)
           = consumption_index b' - consumption_index b"
proof -
  from assms have "runs b (zip injs conss) b'"
    unfolding simulate_def by (blast intro: runs_iff_hour_loop [THEN iffD2])
  then have "stock b' + battery_out b' - injection_index b' = stock b + battery_out b - injection_index b
       \<and> battery_out b' + enedis_out b' - consumption_index b'
           = battery_out b + enedis_out b - consumption_index b"
    by (rule runs_conserves)
  then show ?thesis by (simp add: algebra_simps)
qed

theorem simulate_conservation_witness:
  "simulate demo_battery demo_injs demo_conss = Inr (demo_final, demo_stats)
   \<and> stock demo_final + (battery_out demo_final - battery_out demo_battery)
       = stock demo_battery + (injection_index demo_final - injection_index demo_battery)
   \<and> (battery_out demo_final - battery_out demo_battery) + (enedis_out demo_final - enedis_out demo_battery)
       = consumption_index demo_final - consumption_index demo_battery"
  using demo_simulate simulate_conservation [OF demo_simulate] by blast
end
