(* ===== verification/Curves.thy ===== *)
theory Curves
  imports Battery
begin

text \<open>
  The hourly loop of \<open>src/virtualBattery_to_ha.py\<close> (lines 157--210) over the
  records the statistics API really returns: JSON objects in which \<open>start_ts\<close> and
  \<open>sum\<close> may be missing or \<open>null\<close>. The loop indexes them without checking:
  \<open>injectionData["start_ts"]\<close> (line 164), \<open>consumptionData["start_ts"]\<close>
  (line 165), \<open>injectionData["sum"]\<close> (line 175) and \<open>consumptionData["sum"]\<close>
  (line 177). A missing key raises \<open>KeyError\<close>; a \<open>null\<close> raises \<open>TypeError\<close>
  in \<open>datetime.fromtimestamp\<close> or in the subtraction. \<open>hour_loop_json\<close> is that
  loop; \<open>hour_loop_json_eq\<close> shows it is the check of every record followed by
  the loop \<open>hour_loop\<close> of \<open>Battery\<close> on the decoded samples.
\<close>

section \<open>Records and the loop\<close>

text \<open>One record of a curve as received: its \<open>start_ts\<close> and \<open>sum\<close> keys.\<close>

record 'a raw_sample =
  raw_start_ts :: "int jfield"
  raw_sum :: "'a jfield"

text \<open>
  Line 164 (and 165): \<open>datetime.fromtimestamp(data["start_ts"], tz=...)\<close>; the
  result is the \<open>+03:00\<close> wall clock.
\<close>

definition json_datetime :: "'a raw_sample \<Rightarrow> int result" where
  "json_datetime r =
     (case raw_start_ts r of
        Absent \<Rightarrow> Inl (KeyError ''start_ts'')
      | Null \<Rightarrow> Inl (TypeError ''fromtimestamp'')
      | Val ts \<Rightarrow> (case fromtimestamp_gmt3 ts of None \<Rightarrow> Inl DatetimeOutOfRange | Some d \<Rightarrow> Inr d))"

text \<open>Line 175 (and 177): \<open>data["sum"] - previousIndex\<close> needs a number.\<close>

definition json_sum :: "'a raw_sample \<Rightarrow> 'a result" where
  "json_sum r =
     (case raw_sum r of
        Absent \<Rightarrow> Inl (KeyError ''sum'')
      | Null \<Rightarrow> Inl (TypeError ''-'')
      | Val s \<Rightarrow> Inr s)"

text \<open>
  Lines 163--210: the loop over \<open>zip\<close>, each access in the code's order: both
  datetimes, their comparison, then both sums; the hour itself is \<open>hour_state\<close>
  on the numbers read.
\<close>

fun hour_loop_json ::
  "'a::linordered_idom battery \<Rightarrow> 'a stats \<Rightarrow> ('a raw_sample \<times> 'a raw_sample) list
   \<Rightarrow> ('a battery \<times> 'a stats) result" where
  "hour_loop_json b st [] = Inr (b, st)"
| "hour_loop_json b st ((ri, rc) # ps) =
     rbind (json_datetime ri) (\<lambda>injectionDate.
     rbind (json_datetime rc) (\<lambda>consumptionDate.
       (if injectionDate \<noteq> consumptionDate then Inl DateMismatch
        else
          rbind (json_sum ri) (\<lambda>inj_sum.
          rbind (json_sum rc) (\<lambda>cons_sum.
            (let b' = hour_state b \<lparr>start_ts = injectionDate - GMT_INT * 3600, sum_val = inj_sum\<rparr>
                                   \<lparr>start_ts = consumptionDate - GMT_INT * 3600, sum_val = cons_sum\<rparr>
             in hour_loop_json b' (emit st (stat_start injectionDate) b') ps))))))"

definition simulate_json ::
  "'a::linordered_idom battery \<Rightarrow> 'a raw_sample list \<Rightarrow> 'a raw_sample list
   \<Rightarrow> ('a battery \<times> 'a stats) result" where
  "simulate_json b injs conss = hour_loop_json b empty_stats (zip injs conss)"

section \<open>Reference form\<close>

text \<open>
  The error a pair raises, in the code's order, or \<open>None\<close>; the first error of a
  list of pairs; the numbers of a record (used where it has them); a well-formed
  sample as a JSON record.
\<close>

definition raw_pair_error :: "'a raw_sample \<times> 'a raw_sample \<Rightarrow> py_error option" where
  "raw_pair_error p =
     (case p of (ri, rc) \<Rightarrow>
        (case rbind (json_datetime ri) (\<lambda>di. rbind (json_datetime rc) (\<lambda>dc.
                (if di \<noteq> dc then Inl DateMismatch
                 else rbind (json_sum ri) (\<lambda>_. rbind (json_sum rc) (\<lambda>_. Inr ()))))) of
           Inl e \<Rightarrow> Some e
         | Inr _ \<Rightarrow> None))"

definition raw_loop_error :: "('a raw_sample \<times> 'a raw_sample) list \<Rightarrow> py_error option" where
  "raw_loop_error ps = first_some raw_pair_error ps"

definition jfield_or :: "'a \<Rightarrow> 'a jfield \<Rightarrow> 'a" where
  "jfield_or d f = (case f of Val x \<Rightarrow> x | _ \<Rightarrow> d)"

definition decode_sample :: "'a::zero raw_sample \<Rightarrow> 'a sample" where
  "decode_sample r = \<lparr>start_ts = jfield_or 0 (raw_start_ts r), sum_val = jfield_or 0 (raw_sum r)\<rparr>"

definition decode_pair :: "'a::zero raw_sample \<times> 'a raw_sample \<Rightarrow> 'a sample \<times> 'a sample" where
  "decode_pair p = (case p of (ri, rc) \<Rightarrow> (decode_sample ri, decode_sample rc))"

definition to_raw :: "'a sample \<Rightarrow> 'a raw_sample" where
  "to_raw s = \<lparr>raw_start_ts = Val (start_ts s), raw_sum = Val (sum_val s)\<rparr>"

declare json_datetime_def [model_defs] json_sum_def [model_defs] simulate_json_def [model_defs]
  to_raw_def [model_defs]

section \<open>The loop over JSON records against the loop over samples\<close>

lemma hour_state_sums:
  "sum_val i = sum_val i' \<Longrightarrow> sum_val c = sum_val c' \<Longrightarrow> hour_state b i c = hour_state b i' c'"
  by (simp add: hour_state_def read_hour_def)

lemma raw_pair_error_None:
  "raw_pair_error (ri, rc) = None \<longleftrightarrow>
     (\<exists>ts si sc. raw_start_ts ri = Val ts \<and> raw_start_ts rc = Val ts \<and> raw_sum ri = Val si
        \<and> raw_sum rc = Val sc \<and> fromtimestamp_gmt3 ts \<noteq> None)"
  by (auto simp: raw_pair_error_def json_datetime_def json_sum_def fromtimestamp_gmt3_def Let_def
      split: jfield.splits option.splits if_splits sum.splits)

lemma raw_pair_error_decode:
  "raw_pair_error p = None \<Longrightarrow> pair_error (decode_pair p) = None"
  by (cases p) (auto simp: raw_pair_error_None decode_pair_def decode_sample_def jfield_or_def
      pair_error_None fromtimestamp_gmt3_def Let_def split: if_splits)

lemma hour_loop_json_Cons:
  "hour_loop_json b st (p # ps) =
     (case raw_pair_error p of
        Some e \<Rightarrow> Inl e
      | None \<Rightarrow> (let b' = hour_state b (fst (decode_pair p)) (snd (decode_pair p))
                in hour_loop_json b' (emit st (stat_start (start_ts (fst (decode_pair p)) + GMT_INT * 3600)) b') ps))"
proof (cases p)
  case (Pair ri rc)
  show ?thesis
  proof (cases "raw_pair_error (ri, rc)")
    case None
    then obtain ts si sc where r: "raw_start_ts ri = Val ts" "raw_start_ts rc = Val ts" "raw_sum ri = Val si"
      "raw_sum rc = Val sc" "fromtimestamp_gmt3 ts \<noteq> None"
      by (auto simp: raw_pair_error_None)
    then have d: "fromtimestamp_gmt3 ts = Some (ts + GMT_INT * 3600)"
      by (simp add: fromtimestamp_gmt3_def Let_def split: if_splits)
    have "hour_state b \<lparr>start_ts = ts + GMT_INT * 3600 - GMT_INT * 3600, sum_val = si\<rparr>
                        \<lparr>start_ts = ts + GMT_INT * 3600 - GMT_INT * 3600, sum_val = sc\<rparr>
        = hour_state b (decode_sample ri) (decode_sample rc)"
      using r by (intro hour_state_sums) (simp_all add: decode_sample_def jfield_or_def)
    with Pair None r d show ?thesis
      by (simp add: json_datetime_def json_sum_def decode_pair_def decode_sample_def jfield_or_def Let_def)
  next
    case (Some e)
    with Pair show ?thesis
      by (cases "json_datetime ri"; cases "json_datetime rc"; cases "json_sum ri"; cases "json_sum rc")
         (auto simp: raw_pair_error_def split: if_splits)
  qed
qed

lemma hour_loop_json_eq:
  "hour_loop_json b st ps =
     (case raw_loop_error ps of Some e \<Rightarrow> Inl e | None \<Rightarrow> hour_loop b st (map decode_pair ps))"
proof (induction ps arbitrary: b st)
  case Nil
  then show ?case by (simp add: raw_loop_error_def)
next
  case (Cons p ps)
  obtain i c where dp: "decode_pair p = (i, c)" by fastforce
  show ?case
  proof (cases "raw_pair_error p")
    case None
    then have "pair_error (i, c) = None" using raw_pair_error_decode dp by metis
    with None Cons.IH dp show ?thesis
      by (simp add: hour_loop_json_Cons hour_loop_Cons raw_loop_error_def Let_def
          del: hour_loop_json.simps hour_loop.simps split: option.split)
  next
    case (Some e)
    then show ?thesis
      by (simp add: hour_loop_json_Cons raw_loop_error_def del: hour_loop_json.simps)
  qed
qed

lemma raw_loop_error_decode:
  "raw_loop_error ps = None \<Longrightarrow> loop_error (map decode_pair ps) = None"
  by (auto simp: raw_loop_error_def loop_error_def first_some_None raw_pair_error_decode)

lemma simulate_json_Inl:
  "simulate_json b injs conss = Inl e \<longleftrightarrow> raw_loop_error (zip injs conss) = Some e"
proof (cases "raw_loop_error (zip injs conss)")
  case None
  then have "loop_error (map decode_pair (zip injs conss)) = None" by (rule raw_loop_error_decode)
  with None show ?thesis
    by (simp add: simulate_json_def hour_loop_json_eq hour_loop_eq)
next
  case (Some e')
  then show ?thesis by (simp add: simulate_json_def hour_loop_json_eq)
qed

lemma demo_simulate_json:
  "simulate_json demo_battery (map to_raw demo_injs) (map to_raw demo_conss) = Inr (demo_final, demo_stats)"
  by (simp add: demo_defs model_defs)

section \<open>Guarantees of the loop over JSON records\<close>

text \<open>
  C20. The loop over JSON records fails exactly at the first processed pair that
  fails one of the accesses and checks of lines 164--177, with that pair's error in
  the code's order: \<open>KeyError 'start_ts'\<close> or \<open>TypeError\<close> for a missing or
  \<open>null\<close> timestamp, \<open>DatetimeOutOfRange\<close>, \<open>DateMismatch\<close>, then
  \<open>KeyError 'sum'\<close> or \<open>TypeError\<close> for a missing or \<open>null\<close> sum.
\<close>

theorem simulate_json_error:
  "simulate_json b injs conss = Inl e \<longleftrightarrow>
     (\<exists>k < min (length injs) (length conss).
        (\<forall>j < k. raw_pair_error (injs ! j, conss ! j) = None) \<and> raw_pair_error (injs ! k, conss ! k) = Some e)"
proof -
  from simulate_json_Inl [of b injs conss e] show ?thesis by (simp add: raw_loop_error_def first_some_zip)
qed

theorem simulate_json_error_witness:
  "simulate_json demo_battery (map to_raw demo_injs)
     ((map to_raw demo_conss)[1 := \<lparr>raw_start_ts = Val 1710716400, raw_sum = Null\<rparr>])
   = Inl (TypeError ''-'')"
proof -
  let ?c = "(map to_raw demo_conss)[1 := \<lparr>raw_start_ts = Val 1710716400, raw_sum = Null\<rparr>]"
  have h: "\<exists>k < min (length (map to_raw demo_injs)) (length ?c).
      (\<forall>j < k. raw_pair_error (map to_raw demo_injs ! j, ?c ! j) = None)
      \<and> raw_pair_error (map to_raw demo_injs ! k, ?c ! k) = Some (TypeError ''-'')"
  proof (intro exI conjI allI impI)
    show "1 < min (length (map to_raw demo_injs)) (length ?c)" by (simp add: demo_defs)
    show "raw_pair_error (map to_raw demo_injs ! 1, ?c ! 1) = Some (TypeError ''-'')"
      by (simp add: demo_defs raw_pair_error_def model_defs)
    fix j :: nat
    assume "j < 1"
    then show "raw_pair_error (map to_raw demo_injs ! j, ?c ! j) = None"
      by (simp add: demo_defs raw_pair_error_def model_defs)
  qed
  from simulate_json_error [THEN iffD2, OF h] show ?thesis .
qed

end
