(* ===== verification/Readings.thy ===== *)
theory Readings
  imports Curves
begin

text \<open>
  The statistic source of \<open>src/virtualBattery_to_ha.py\<close>: \<open>getStatistics\<close>
  (lines 43--63) and the read phase of the script (lines 99--155), which fetches the
  battery stock, the three cumulative counters and the two hourly curves before the
  loop of \<open>Battery\<close> runs. The Home Assistant API enters as a record of two
  functions, \<open>stat_api\<close>, from a query to the HTTP response; everything the script
  does with a response is modelled: the status test, the \<open>message\<close> key, Python's
  truthiness tests on the message and on its \<open>state\<close>/\<open>sum\<close> keys, the
  multiplication of the stock by 1000, the defaults to 0 and the fatal exits.
\<close>

section \<open>Statistic identifiers (lines 17--30)\<close>

definition HA_STAT_BATTERY_STOCK :: string where
  "HA_STAT_BATTERY_STOCK = ''sensor.urbansolar_battery_stock''"

definition HA_STAT_BATTERY_OUT :: string where
  "HA_STAT_BATTERY_OUT = ''sensor.urbansolar_battery_out''"

definition HA_STAT_ENEDIS_OUT :: string where
  "HA_STAT_ENEDIS_OUT = ''sensor.urbansolar_enedis_out''"

definition HA_STAT_CONSUMPTION_CURVE :: string where
  "HA_STAT_CONSUMPTION_CURVE = ''sensor.linky_hourly_consumption''"

definition HA_STAT_PROD_CURVE :: string where
  "HA_STAT_PROD_CURVE = ''sensor.linky_hourly_injection''"

section \<open>Responses and getStatistics (lines 43--63)\<close>

text \<open>An HTTP response of \<open>/api/long_term_stats\<close>: its status and the \<open>message\<close> key of its JSON body.\<close>

record 'm response =
  status_code :: nat
  body_json :: bool            \<comment> \<open>whether the body parses as JSON\<close>
  body_message :: "'m jfield"

text \<open>
  A 200 answer yields \<open>data["message"]\<close>: \<open>response.json()\<close> raises on a body
  that is not JSON (line 58), a missing key raises (line 60), \<open>null\<close> is
  \<open>None\<close>; any other status yields \<open>None\<close>.
\<close>

definition getStatistics :: "'m response \<Rightarrow> 'm option result" where
  "getStatistics r =
     (if status_code r = 200
      then (if \<not> body_json r then Inl JSONDecodeError
      else (case body_message r of
              Absent \<Rightarrow> Inl (KeyError ''message'')
            | Null \<Rightarrow> Inr None
            | Val m \<Rightarrow> Inr (Some m)))
      else Inr None)"

text \<open>
  A point statistic: the \<open>state\<close> and \<open>sum\<close> keys the script reads, and whether
  the object has any other key (which decides whether it is an empty, falsy, dict).
\<close>

record 'a point =
  pt_state :: "'a jfield"
  pt_sum :: "'a jfield"
  pt_other_keys :: bool

definition point_empty :: "'a point \<Rightarrow> bool" where
  "point_empty p \<longleftrightarrow> pt_state p = Absent \<and> pt_sum p = Absent \<and> \<not> pt_other_keys p"

text \<open>
  The API: one function per kind of query of \<open>getStatistics\<close>, from the
  \<open>entity_id\<close> and the \<open>datetime\<close> (and \<open>end_datetime\<close>) parameters to the
  response. A datetime is always truthy, so the range query of lines 138 and 152
  always sends \<open>end_datetime\<close> (line 53).
\<close>

record 'a stat_api =
  get_point :: "string \<Rightarrow> string \<Rightarrow> 'a point response"
  get_range :: "string \<Rightarrow> string \<Rightarrow> string \<Rightarrow> 'a raw_sample list response"

text \<open>Lines 51 and 54: \<open>str(date.isoformat(sep=' ')+GMT)\<close> of a naive datetime.\<close>

definition iso_param :: "int \<Rightarrow> string" where
  "iso_param date = isoformat_sp date @ GMT"

section \<open>The prior values\<close>

text \<open>
  Lines 101--105: the stock is required. \<open>not previousBatteryStock\<close> catches a failed
  request, a \<open>null\<close> message and an empty object; \<open>not ...["state"]\<close> catches
  \<open>null\<close> and zero; a missing \<open>state\<close> key raises. The kWh reading is scaled to Wh.
\<close>

definition read_stock :: "'a::linordered_idom point option \<Rightarrow> 'a result" where
  "read_stock r =
     (case r of
        None \<Rightarrow> Inl StockNotFound
      | Some p \<Rightarrow>
          (if point_empty p then Inl StockNotFound
           else (case pt_state p of
                   Absent \<Rightarrow> Inl (KeyError ''state'')
                 | Null \<Rightarrow> Inl StockNotFound
                 | Val x \<Rightarrow> (if x = 0 then Inl StockNotFound else Inr (x * 1000)))))"

text \<open>
  Lines 110--115 (and the same code at 120--125, 130--135, 145--150): a cumulative
  counter defaults to 0 when the request fails, the object is empty, or \<open>sum\<close> is
  \<open>null\<close> or zero; a missing \<open>sum\<close> key in a non-empty object raises.
\<close>

definition read_counter :: "'a::linordered_idom point option \<Rightarrow> 'a result" where
  "read_counter r =
     (case r of
        None \<Rightarrow> Inr 0
      | Some p \<Rightarrow>
          (if point_empty p then Inr 0
           else (case pt_sum p of
                   Absent \<Rightarrow> Inl (KeyError ''sum'')
                 | Null \<Rightarrow> Inr 0
                 | Val x \<Rightarrow> (if x = 0 then Inr 0 else Inr x))))"

text \<open>Lines 139--141 and 153--155: a missing or empty curve is fatal.\<close>

definition read_range :: "py_error \<Rightarrow> 'a raw_sample list option \<Rightarrow> 'a raw_sample list result" where
  "read_range e r = (case r of None \<Rightarrow> Inl e | Some xs \<Rightarrow> (if xs = [] then Inl e else Inr xs))"

section \<open>The read phase (lines 99--155)\<close>

text \<open>\<open>getStatistics(sensor, startDate)\<close> (lines 101, 110, 120, 130, 145).\<close>

definition read_point :: "'a stat_api \<Rightarrow> string \<Rightarrow> int \<Rightarrow> 'a point option result" where
  "read_point api sensor t = getStatistics (get_point api sensor (iso_param t))"

text \<open>
  Lines 138 and 152: \<open>getStatistics(sensor, startDate + timedelta(hours=1),
  endDate + timedelta(hours=1))\<close>; the two sums are computed first, in this order,
  and raise \<open>OverflowError\<close> past the year 9999.
\<close>

definition read_curve ::
  "'a stat_api \<Rightarrow> string \<Rightarrow> int \<Rightarrow> int \<Rightarrow> 'a raw_sample list option result" where
  "read_curve api sensor start_date end_date =
     rbind (timedelta_add start_date 3600) (\<lambda>t1.
     rbind (timedelta_add end_date 3600) (\<lambda>t2.
     getStatistics (get_range api sensor (iso_param t1) (iso_param t2))))"

text \<open>
  The reads in the code's order: stock, battery-out index, Enedis-out index,
  injection index, injection curve (from one hour after \<open>startDate\<close> to one hour
  after \<open>endDate\<close>), consumption index, consumption curve. All point reads are at
  \<open>startDate\<close>. The first failure stops
  the script. The result is the loop's starting state and the two curves.
\<close>

definition read_inputs ::
  "'a::linordered_idom stat_api \<Rightarrow> int \<Rightarrow> int
   \<Rightarrow> ('a battery \<times> 'a raw_sample list \<times> 'a raw_sample list) result" where
  "read_inputs api start_date end_date =
     rbind (rbind (read_point api HA_STAT_BATTERY_STOCK start_date) read_stock) (\<lambda>stock0.
     rbind (rbind (read_point api HA_STAT_BATTERY_OUT start_date) read_counter) (\<lambda>out0.
     rbind (rbind (read_point api HA_STAT_ENEDIS_OUT start_date) read_counter) (\<lambda>enedis0.
     rbind (rbind (read_point api HA_STAT_PROD_CURVE start_date) read_counter) (\<lambda>inj0.
     rbind (rbind (read_curve api HA_STAT_PROD_CURVE start_date end_date)
                  (read_range InjectionDataNotFound)) (\<lambda>injs.
     rbind (rbind (read_point api HA_STAT_CONSUMPTION_CURVE start_date) read_counter) (\<lambda>cons0.
     rbind (rbind (read_curve api HA_STAT_CONSUMPTION_CURVE start_date end_date)
                  (read_range ConsumptionDataNotFound)) (\<lambda>conss.
     Inr (\<lparr>stock = stock0, battery_out = out0, enedis_out = enedis0,
           injection_index = inj0, consumption_index = cons0\<rparr>, injs, conss))))))))"

section \<open>A concrete API\<close>

text \<open>
  The answers of the day of \<open>Battery\<close>'s example: a stock of 5 kWh, injection and
  consumption indices of 10000 and 20000 Wh, both curves present, and no battery-out
  or Enedis-out statistic yet (a first run).
\<close>

definition demo_point :: "string \<Rightarrow> string \<Rightarrow> int point response" where
  "demo_point sensor t =
     (if sensor = HA_STAT_BATTERY_STOCK
      then \<lparr>status_code = 200, body_json = True, body_message = Val \<lparr>pt_state = Val 5, pt_sum = Absent, pt_other_keys = True\<rparr>\<rparr>
      else if sensor = HA_STAT_PROD_CURVE
      then \<lparr>status_code = 200, body_json = True, body_message = Val \<lparr>pt_state = Absent, pt_sum = Val 10000, pt_other_keys = True\<rparr>\<rparr>
      else if sensor = HA_STAT_CONSUMPTION_CURVE
      then \<lparr>status_code = 200, body_json = True, body_message = Val \<lparr>pt_state = Absent, pt_sum = Val 20000, pt_other_keys = True\<rparr>\<rparr>
      else \<lparr>status_code = 404, body_json = True, body_message = Absent\<rparr>)"

definition demo_range :: "string \<Rightarrow> string \<Rightarrow> string \<Rightarrow> int raw_sample list response" where
  "demo_range sensor t1 t2 =
     (if sensor = HA_STAT_PROD_CURVE then \<lparr>status_code = 200, body_json = True, body_message = Val (map to_raw demo_injs)\<rparr>
      else if sensor = HA_STAT_CONSUMPTION_CURVE then \<lparr>status_code = 200, body_json = True, body_message = Val (map to_raw demo_conss)\<rparr>
      else \<lparr>status_code = 404, body_json = True, body_message = Absent\<rparr>)"

definition demo_api :: "int stat_api" where
  "demo_api = \<lparr>get_point = demo_point, get_range = demo_range\<rparr>"

declare HA_STAT_BATTERY_STOCK_def [model_defs] HA_STAT_BATTERY_OUT_def [model_defs]
  HA_STAT_ENEDIS_OUT_def [model_defs] HA_STAT_CONSUMPTION_CURVE_def [model_defs]
  HA_STAT_PROD_CURVE_def [model_defs] getStatistics_def [model_defs] point_empty_def [model_defs]
  read_stock_def [model_defs] read_counter_def [model_defs] read_range_def [model_defs]
  read_point_def [model_defs] read_curve_def [model_defs] read_inputs_def [model_defs]
  iso_param_def [model_defs]

section \<open>The request\<close>

text \<open>
  C21. \<open>getStatistics\<close> fails only on a 200 answer: with \<open>JSONDecodeError\<close> when
  the body is not JSON, and with \<open>KeyError 'message'\<close> when the JSON has no
  \<open>message\<close> key. Every other answer, in particular every non-200 status, is a
  value (\<open>None\<close> or the message).
\<close>

theorem getStatistics_Inl_iff:
  "getStatistics r = Inl e \<longleftrightarrow>
     status_code r = 200
     \<and> (body_json r = False \<and> e = JSONDecodeError
        \<or> body_json r = True \<and> body_message r = Absent \<and> e = KeyError ''message'')"
  by (auto simp: getStatistics_def split: jfield.splits)

theorem getStatistics_Inl_iff_witness:
  "getStatistics (\<lparr>status_code = 200, body_json = False, body_message = Absent\<rparr> :: int point response)
     = Inl JSONDecodeError"
  by (rule getStatistics_Inl_iff [THEN iffD2]) simp

section \<open>Reading the prior values\<close>

text \<open>
  C10. The stock read succeeds exactly when the answer is an object whose \<open>state\<close>
  is a non-zero number, and then yields that number times 1000. In particular a stored
  stock of exactly 0 (an empty battery) is treated like a missing one.
\<close>

theorem read_stock_Inr_iff:
  "read_stock r = Inr v \<longleftrightarrow> (\<exists>p x. r = Some p \<and> pt_state p = Val x \<and> x \<noteq> 0 \<and> v = x * 1000)"
  by (auto simp: read_stock_def point_empty_def split: option.splits jfield.splits)

text \<open>
  C11. A counter read fails only with \<open>KeyError 'sum'\<close>, and exactly when the answer
  is a non-empty object without a \<open>sum\<close> key; every other answer (no answer, an empty
  object, a \<open>null\<close> or numeric \<open>sum\<close>) is a value.
\<close>

theorem read_counter_Inl_iff:
  "read_counter r = Inl e \<longleftrightarrow>
     e = KeyError ''sum'' \<and> (\<exists>p. r = Some p \<and> \<not> point_empty p \<and> pt_sum p = Absent)"
  by (auto simp: read_counter_def split: option.splits jfield.splits)

section \<open>The read phase\<close>

lemma demo_read_inputs: "read_inputs demo_api 1710720000 1710806400 = Inr (demo_battery, map to_raw demo_injs, map to_raw demo_conss)"
  by (simp add: demo_api_def demo_point_def demo_range_def demo_defs model_defs)

text \<open>
  C12. Missing battery-out and Enedis-out statistics do not stop the script: when
  those two requests fail and the other reads succeed, the loop starts from
  cumulative discharge and grid draw 0 (scenario 6 of the spec).
\<close>

theorem read_inputs_missing_counters:
  assumes "status_code (get_point api HA_STAT_BATTERY_OUT (iso_param s)) \<noteq> 200"
    and "status_code (get_point api HA_STAT_ENEDIS_OUT (iso_param s)) \<noteq> 200"
    and "rbind (read_point api HA_STAT_BATTERY_STOCK s) read_stock = Inr x"
    and "rbind (read_point api HA_STAT_PROD_CURVE s) read_counter = Inr i0"
    and "rbind (read_curve api HA_STAT_PROD_CURVE s e)
           (read_range InjectionDataNotFound) = Inr injs"
    and "rbind (read_point api HA_STAT_CONSUMPTION_CURVE s) read_counter = Inr c0"
    and "rbind (read_curve api HA_STAT_CONSUMPTION_CURVE s e)
           (read_range ConsumptionDataNotFound) = Inr conss"
  shows "read_inputs api s e =
     Inr (\<lparr>stock = x, battery_out = 0, enedis_out = 0, injection_index = i0,
           consumption_index = c0\<rparr>, injs, conss)"
  using assms by (simp add: read_inputs_def read_point_def getStatistics_def read_counter_def)

theorem read_inputs_missing_counters_witness:
  "status_code (get_point demo_api HA_STAT_BATTERY_OUT (iso_param 1710720000)) \<noteq> 200
   \<and> status_code (get_point demo_api HA_STAT_ENEDIS_OUT (iso_param 1710720000)) \<noteq> 200
   \<and> read_inputs demo_api 1710720000 1710806400 =
       Inr (\<lparr>stock = 5000, battery_out = 0, enedis_out = 0, injection_index = 10000,
             consumption_index = 20000\<rparr>, map to_raw demo_injs, map to_raw demo_conss)"
proof -
  have h: "status_code (get_point demo_api HA_STAT_BATTERY_OUT (iso_param 1710720000)) \<noteq> 200"
    "status_code (get_point demo_api HA_STAT_ENEDIS_OUT (iso_param 1710720000)) \<noteq> 200"
    "rbind (read_point demo_api HA_STAT_BATTERY_STOCK 1710720000) read_stock = Inr 5000"
    "rbind (read_point demo_api HA_STAT_PROD_CURVE 1710720000) read_counter = Inr 10000"
    "rbind (read_curve demo_api HA_STAT_PROD_CURVE 1710720000 1710806400)
       (read_range InjectionDataNotFound) = Inr (map to_raw demo_injs)"
    "rbind (read_point demo_api HA_STAT_CONSUMPTION_CURVE 1710720000) read_counter = Inr 20000"
    "rbind (read_curve demo_api HA_STAT_CONSUMPTION_CURVE 1710720000 1710806400)
       (read_range ConsumptionDataNotFound) = Inr (map to_raw demo_conss)"
    by (simp_all add: demo_api_def demo_point_def demo_range_def demo_defs model_defs)
  show ?thesis
    using h(1,2) read_inputs_missing_counters [OF h] by simp
qed

text \<open>
  C13. When the stock cannot be read (the request fails or its message is
  \<open>null\<close>, or its \<open>state\<close> is \<open>null\<close> or 0) the script stops with
  \<open>StockNotFound\<close> before anything else is read or written (scenario 3 of the spec).
\<close>

theorem read_inputs_stock_unavailable:
  assumes "read_point api HA_STAT_BATTERY_STOCK s = Inr None
     \<or> (\<exists>p. read_point api HA_STAT_BATTERY_STOCK s = Inr (Some p) \<and> pt_state p \<in> {Null, Val 0})"
  shows "read_inputs api s e = Inl StockNotFound"
  using assms by (auto simp: read_inputs_def read_stock_def point_empty_def)

theorem read_inputs_stock_unavailable_witness:
  "read_point (demo_api\<lparr>get_point := \<lambda>sensor t. \<lparr>status_code = 200, body_json = True,
       body_message = Val \<lparr>pt_state = Val 0, pt_sum = Absent, pt_other_keys = True\<rparr>\<rparr>\<rparr>)
     HA_STAT_BATTERY_STOCK 1710720000 = Inr (Some \<lparr>pt_state = Val 0, pt_sum = Absent, pt_other_keys = True\<rparr>)
   \<and> read_inputs (demo_api\<lparr>get_point := \<lambda>sensor t. \<lparr>status_code = 200, body_json = True,
       body_message = Val \<lparr>pt_state = Val 0, pt_sum = Absent, pt_other_keys = True\<rparr>\<rparr>\<rparr>) 1710720000 1710806400
     = Inl StockNotFound"
proof -
  let ?api = "demo_api\<lparr>get_point := \<lambda>sensor t. \<lparr>status_code = 200, body_json = True,
       body_message = Val \<lparr>pt_state = Val 0, pt_sum = Absent, pt_other_keys = True\<rparr>\<rparr>\<rparr>"
  have h: "read_point ?api HA_STAT_BATTERY_STOCK 1710720000
      = Inr (Some \<lparr>pt_state = Val (0::int), pt_sum = Absent, pt_other_keys = True\<rparr>)"
    by (simp add: read_point_def getStatistics_def)
  then have "read_inputs ?api 1710720000 1710806400 = Inl StockNotFound"
    by (intro read_inputs_stock_unavailable) simp
  with h show ?thesis by simp
qed

end
