(* ===== verification/Run.thy ===== *)
theory Run
  imports Readings
begin

text \<open>
  The script of \<open>src/virtualBattery_to_ha.py\<close> from end to end (lines 77--263):
  the configuration check, the choice of the date range, the read phase of
  \<open>Readings\<close>, the loop of \<open>Battery\<close>, and the write-back of the three series with
  one \<open>import_statistics\<close> request each. The environment (variables, command line,
  clock, the statistics API and the POST endpoint) is the record
  \<open>env\<close>; \<open>run\<close> returns the exit reason or the list of requests posted, each with
  whether the server accepted it.
\<close>

section \<open>Configuration (lines 13--15 and 77--80)\<close>

record config =
  ha_token :: "string option"   \<comment> \<open>\<open>os.getenv("HA_TOKEN")\<close>\<close>
  ha_url :: "string option"     \<comment> \<open>\<open>os.getenv("HA_URL")\<close>\<close>

text \<open>\<open>not HA_TOKEN or not HA_URL\<close>: an unset or empty variable stops the script.\<close>

definition check_config :: "config \<Rightarrow> unit result" where
  "check_config cfg =
     (if ha_token cfg \<in> {None, Some []} \<or> ha_url cfg \<in> {None, Some []}
      then Inl ConfigMissing else Inr ())"

section \<open>Date range (lines 82--97)\<close>

record cli_args =
  start_arg :: "string option"   \<comment> \<open>\<open>--startDate\<close>\<close>
  end_arg :: "string option"     \<comment> \<open>\<open>--endDate\<close>\<close>

text \<open>
  Lines 93--96: from midnight of the day before \<open>now\<close> (the naive local clock,
  \<open>datetime.now()\<close>) to one day later; both shifts are \<open>timedelta\<close> sums.
\<close>

definition yesterday_range :: "int \<Rightarrow> (int \<times> int) result" where
  "yesterday_range now =
     rbind (timedelta_add now (-86400)) (\<lambda>yesterday.
       (let startDate = midnight yesterday
        in rbind (timedelta_add startDate 86400) (\<lambda>endDate. Inr (startDate, endDate))))"

text \<open>
  Lines 83--96: both dates given (and non-empty): each is parsed by
  \<open>datetime.strptime(.., "%Y-%m-%d")\<close>, the start first, and a \<open>ValueError\<close>
  stops the script. Otherwise, even when one date is given, the previous day.
\<close>

definition select_range :: "cli_args \<Rightarrow> int \<Rightarrow> (int \<times> int) result" where
  "select_range args now =
     (case (start_arg args, end_arg args) of
        (Some a, Some b) \<Rightarrow>
          (if a \<noteq> [] \<and> b \<noteq> []
           then (case strptime_ymd a of
                   None \<Rightarrow> Inl DateParseError
                 | Some s \<Rightarrow> (case strptime_ymd b of
                                None \<Rightarrow> Inl DateParseError
                              | Some e \<Rightarrow> Inr (s, e)))
           else yesterday_range now)
      | _ \<Rightarrow> yesterday_range now)"

section \<open>Write-back (lines 213--263)\<close>

definition HA_STAT_BATTERY_STOCK_NAME :: string where
  "HA_STAT_BATTERY_STOCK_NAME = ''Urbansolar Battery Stock''"

definition HA_STAT_BATTERY_OUT_NAME :: string where
  "HA_STAT_BATTERY_OUT_NAME = ''Urbansolar Battery Out''"

definition HA_STAT_ENEDIS_OUT_NAME :: string where
  "HA_STAT_ENEDIS_OUT_NAME = ''Urbansolar Enedis Out''"

text \<open>The JSON body of one \<open>recorder/import_statistics\<close> request.\<close>

record 'a payload =
  has_mean :: bool
  has_sum :: bool
  source :: string
  name :: string
  statistic_id :: string
  unit_of_measurement :: string
  stats_list :: "'a stat_rec list"

definition payload_battery_out :: "'a stats \<Rightarrow> 'a payload" where
  "payload_battery_out st =
     \<lparr>has_mean = False, has_sum = True, source = ''recorder'', name = HA_STAT_BATTERY_OUT_NAME,
      statistic_id = HA_STAT_BATTERY_OUT, unit_of_measurement = ''Wh'', stats_list = out_list st\<rparr>"

definition payload_enedis_out :: "'a stats \<Rightarrow> 'a payload" where
  "payload_enedis_out st =
     \<lparr>has_mean = False, has_sum = True, source = ''recorder'', name = HA_STAT_ENEDIS_OUT_NAME,
      statistic_id = HA_STAT_ENEDIS_OUT, unit_of_measurement = ''Wh'', stats_list = enedis_list st\<rparr>"

definition payload_battery_stock :: "'a stats \<Rightarrow> 'a payload" where
  "payload_battery_stock st =
     \<lparr>has_mean = False, has_sum = False, source = ''recorder'', name = HA_STAT_BATTERY_STOCK_NAME,
      statistic_id = HA_STAT_BATTERY_STOCK, unit_of_measurement = ''kWh'', stats_list = stock_list st\<rparr>"

text \<open>\<open>res.status_code in (200, 201)\<close>.\<close>

definition post_ok :: "nat \<Rightarrow> bool" where
  "post_ok status \<longleftrightarrow> status \<in> {200, 201}"

text \<open>
  The three requests in the code's order; each one's failure is only printed, so the
  next is sent regardless. \<open>post\<close> is the server: the status it answers.
\<close>

definition write_back :: "('a payload \<Rightarrow> nat) \<Rightarrow> 'a stats \<Rightarrow> ('a payload \<times> bool) list" where
  "write_back post st =
     map (\<lambda>p. (p, post_ok (post p)))
       [payload_battery_out st, payload_enedis_out st, payload_battery_stock st]"

section \<open>The script\<close>

record 'a env =
  env_config :: config
  env_args :: cli_args
  env_now :: int
  env_api :: "'a stat_api"
  env_post :: "'a payload \<Rightarrow> nat"

definition run :: "'a::linordered_idom env \<Rightarrow> ('a payload \<times> bool) list result" where
  "run env =
     rbind (check_config (env_config env)) (\<lambda>_.
     rbind (select_range (env_args env) (env_now env)) (\<lambda>(start_date, end_date).
     rbind (read_inputs (env_api env) start_date end_date) (\<lambda>(b, injs, conss).
     rbind (simulate_json b injs conss) (\<lambda>(b', st).
     Inr (write_back (env_post env) st)))))"

section \<open>A concrete environment\<close>

text \<open>
  No dates on the command line, the clock at 01:00 on 2024-03-19, the day after the
  example day of \<open>Readings\<close>, and a server that rejects the Enedis-out request.
\<close>

definition demo_post :: "int payload \<Rightarrow> nat" where
  "demo_post p = (if statistic_id p = HA_STAT_ENEDIS_OUT then 500 else 201)"

definition demo_env :: "int env" where
  "demo_env = \<lparr>env_config = \<lparr>ha_token = Some ''token'', ha_url = Some ''http://ha.local''\<rparr>,
     env_args = \<lparr>start_arg = None, end_arg = None\<rparr>, env_now = 1710810000,
     env_api = demo_api, env_post = demo_post\<rparr>"

declare check_config_def [model_defs] yesterday_range_def [model_defs] select_range_def [model_defs]
  HA_STAT_BATTERY_STOCK_NAME_def [model_defs] HA_STAT_BATTERY_OUT_NAME_def [model_defs]
  HA_STAT_ENEDIS_OUT_NAME_def [model_defs] payload_battery_out_def [model_defs]
  payload_enedis_out_def [model_defs] payload_battery_stock_def [model_defs]
  post_ok_def [model_defs] write_back_def [model_defs] run_def [model_defs]

section \<open>The date range\<close>

text \<open>
  C14. Without both dates the script processes exactly one day: from a midnight
  (a multiple of 86400 local seconds) to the next, the day that contains the instant
  24 hours before \<open>now\<close>.
\<close>

theorem select_range_default:
  assumes "start_arg args \<in> {None, Some []} \<or> end_arg args \<in> {None, Some []}"
    and "datetime_ok (now - 86400)" and "datetime_ok now"
  shows "\<exists>s. select_range args now = Inr (s, s + 86400)
           \<and> s mod 86400 = 0 \<and> s \<le> now - 86400 \<and> now - 86400 < s + 86400"
proof -
  obtain s where s: "s = midnight (now - 86400)" by simp
  have "s = 86400 * ((now - 86400) div 86400)"
    unfolding s midnight_def by (rule minus_mod_eq_mult_div)
  then have m: "s mod 86400 = 0" by simp
  have "0 \<le> (now - 86400) mod 86400" "(now - 86400) mod 86400 < 86400"
    by simp_all
  then have b: "s \<le> now - 86400" "now - 86400 < s + 86400"
    using s by (simp_all add: midnight_def)
  then have "datetime_ok (s + 86400)"
    using assms(2,3) by (simp add: datetime_ok_def)
  then have "yesterday_range now = Inr (s, s + 86400)"
    using assms(2) by (simp add: yesterday_range_def timedelta_add_def s Let_def)
  then have r: "select_range args now = Inr (s, s + 86400)"
    using assms(1) by (auto simp: select_range_def split: option.splits)
  show ?thesis by (intro exI [of _ s] conjI r m b)
qed

theorem select_range_default_witness:
  "(start_arg \<lparr>start_arg = Some ''2024-05-01'', end_arg = None\<rparr> \<in> {None, Some []}
     \<or> end_arg \<lparr>start_arg = Some ''2024-05-01'', end_arg = None\<rparr> \<in> {None, Some []})
   \<and> datetime_ok (1710810000 - 86400) \<and> datetime_ok 1710810000
   \<and> (\<exists>s. select_range \<lparr>start_arg = Some ''2024-05-01'', end_arg = None\<rparr> 1710810000
           = Inr (s, s + 86400)
         \<and> s mod 86400 = 0 \<and> s \<le> 1710810000 - 86400 \<and> 1710810000 - 86400 < s + 86400)"
proof -
  have h: "start_arg \<lparr>start_arg = Some ''2024-05-01'', end_arg = None\<rparr> \<in> {None, Some []}
     \<or> end_arg \<lparr>start_arg = Some ''2024-05-01'', end_arg = None\<rparr> \<in> {None, Some []}"
    by simp
  have d: "datetime_ok (1710810000 - 86400)" "datetime_ok 1710810000"
    by (simp_all add: model_defs)
  show ?thesis using h d select_range_default [OF h d] by blast
qed

text \<open>
  C17. Dates given on the command line in the documented form \<open>YYYY-MM-DD\<close> are
  read as they are meant: the range runs from the midnight of the start date to the
  midnight of the end date.
\<close>

theorem select_range_dates:
  assumes "check_date_fields (int y1, int m1, int d1)" and "check_date_fields (int y2, int m2, int d2)"
  shows "select_range \<lparr>start_arg = Some (pad4 y1 @ ''-'' @ pad2 m1 @ ''-'' @ pad2 d1),
                       end_arg = Some (pad4 y2 @ ''-'' @ pad2 m2 @ ''-'' @ pad2 d2)\<rparr> now
         = Inr (epoch_days (int y1, int m1, int d1) * 86400, epoch_days (int y2, int m2, int d2) * 86400)"
  using strptime_ymd_iso_date [OF assms(1)] strptime_ymd_iso_date [OF assms(2)]
  by (simp add: select_range_def del: append.simps)

theorem select_range_dates_witness:
  "check_date_fields (int 2024, int 3, int 18) \<and> check_date_fields (int 2024, int 3, int 19)
   \<and> select_range \<lparr>start_arg = Some (pad4 2024 @ ''-'' @ pad2 3 @ ''-'' @ pad2 18),
                    end_arg = Some (pad4 2024 @ ''-'' @ pad2 3 @ ''-'' @ pad2 19)\<rparr> 0
       = Inr (1710720000, 1710806400)"
proof -
  have h: "check_date_fields (int 2024, int 3, int 18)" "check_date_fields (int 2024, int 3, int 19)"
    by (simp_all add: check_date_fields_def valid_date_def month_length_def is_leap_def)
  have "epoch_days (int 2024, int 3, int 18) * 86400 = 1710720000"
    "epoch_days (int 2024, int 3, int 19) * 86400 = 1710806400"
    by (simp_all add: epoch_days_def year_start_def month_start_def month_length_def is_leap_def upto.simps)
  with h select_range_dates [OF h, of 0] show ?thesis by simp
qed

end
