(* ===== verification/Store.thy ===== *)
theory Store
  imports Run
begin

text \<open>
  The statistics store the script talks to (Home Assistant's recorder) is not part
  of the repository: this theory models it from section 6 of the spec, as state.
  A store maps a statistic id to its series: whether it is a cumulative (\<open>sum\<close>)
  series and its records in import order. An accepted \<open>import_statistics\<close>
  request appends the payload's records and sets the series' kind
  (\<open>store_import\<close>, \<open>commit\<close>); a point read answers the value of the last record
  at the queried instant (\<open>stat_at\<close>, \<open>store_point\<close>). \<open>day_api\<close> serves the three
  series the script writes from the store and the meter series from the meter's
  API; \<open>run_on_store\<close> is one invocation of the script against the store, which
  changes the store only through the requests the server accepted.
\<close>

section \<open>Series and records\<close>

record 'a series =
  ser_has_sum :: bool
  ser_records :: "'a stat_rec list"

type_synonym 'a store = "string \<rightharpoonup> 'a series"

text \<open>
  The value a series holds at an instant: the store reads each record's
  \<open>start\<close> as an instant, and a later record of the same hour replaces an earlier
  one.
\<close>

definition stat_at :: "'a stat_rec list \<Rightarrow> int \<Rightarrow> 'a option" where
  "stat_at rs t = map_option rec_value (find (\<lambda>r. iso_instant (rec_start r) = Some t) (rev rs))"

definition point_of :: "bool \<Rightarrow> 'a \<Rightarrow> 'a point" where
  "point_of is_sum v =
     (if is_sum then \<lparr>pt_state = Absent, pt_sum = Val v, pt_other_keys = False\<rparr>
      else \<lparr>pt_state = Val v, pt_sum = Absent, pt_other_keys = False\<rparr>)"

text \<open>
  The statistic a point read returns after the import of one payload alone:
  \<open>{"sum": v}\<close> for a cumulative series and \<open>{"state": v}\<close> for a gauge.
\<close>

definition stored_point :: "'a payload \<Rightarrow> string \<Rightarrow> 'a point option" where
  "stored_point p q =
     (case iso_instant q of
        None \<Rightarrow> None
      | Some t \<Rightarrow> map_option (point_of (has_sum p)) (stat_at (stats_list p) t))"

section \<open>Imports\<close>

definition series_records :: "'a store \<Rightarrow> string \<Rightarrow> 'a stat_rec list" where
  "series_records s sid = (case s sid of None \<Rightarrow> [] | Some ser \<Rightarrow> ser_records ser)"

definition store_import :: "'a store \<Rightarrow> 'a payload \<Rightarrow> 'a store" where
  "store_import s p =
     s(statistic_id p \<mapsto> \<lparr>ser_has_sum = has_sum p, ser_records = series_records s (statistic_id p) @ stats_list p\<rparr>)"

text \<open>The requests of one run, in the order posted; only the accepted ones change the store.\<close>

definition commit :: "'a store \<Rightarrow> ('a payload \<times> bool) list \<Rightarrow> 'a store" where
  "commit s log = foldl (\<lambda>s (p, ok). if ok then store_import s p else s) s log"

section \<open>Point reads\<close>

definition store_point :: "'a store \<Rightarrow> string \<Rightarrow> string \<Rightarrow> 'a point option" where
  "store_point s sid q =
     (case s sid of
        None \<Rightarrow> None
      | Some ser \<Rightarrow>
          (case iso_instant q of
             None \<Rightarrow> None
           | Some t \<Rightarrow> map_option (point_of (ser_has_sum ser)) (stat_at (ser_records ser) t)))"

text \<open>The answer of \<open>/api/long_term_stats\<close>: the statistic, or \<open>null\<close> when there is none.\<close>

definition store_response :: "'a store \<Rightarrow> string \<Rightarrow> string \<Rightarrow> 'a point response" where
  "store_response s sid q =
     \<lparr>status_code = 200, body_json = True,
      body_message = (case store_point s sid q of None \<Rightarrow> Null | Some p \<Rightarrow> Val p)\<rparr>"

definition written_ids :: "string list" where
  "written_ids = [HA_STAT_BATTERY_OUT, HA_STAT_ENEDIS_OUT, HA_STAT_BATTERY_STOCK]"

definition day_api :: "'a stat_api \<Rightarrow> 'a store \<Rightarrow> 'a stat_api" where
  "day_api api s =
     api\<lparr>get_point := (\<lambda>sid q. if sid \<in> set written_ids then store_response s sid q
                               else get_point api sid q)\<rparr>"

section \<open>A run against the store\<close>

definition run_on_store ::
  "'a::linordered_idom env \<Rightarrow> 'a store \<Rightarrow> (('a payload \<times> bool) list \<times> 'a store) result" where
  "run_on_store env s =
     rbind (run (env\<lparr>env_api := day_api (env_api env) s\<rparr>)) (\<lambda>log. Inr (log, commit s log))"

text \<open>
  The kinds of the three series agree with what the script writes: the two
  counters are cumulative, the stock a gauge.
\<close>

definition store_ok :: "'a store \<Rightarrow> bool" where
  "store_ok s \<longleftrightarrow>
     list_all (\<lambda>(sid, hs). case s sid of None \<Rightarrow> True | Some ser \<Rightarrow> ser_has_sum ser = hs)
       [(HA_STAT_BATTERY_OUT, True), (HA_STAT_ENEDIS_OUT, True), (HA_STAT_BATTERY_STOCK, False)]"

text \<open>
  A store holding one battery-stock record at the start of 2024-03-18 (local time),
  as written by the script's run of the day before.
\<close>

definition demo_store :: "int store" where
  "demo_store = [HA_STAT_BATTERY_STOCK \<mapsto>
     \<lparr>ser_has_sum = False, ser_records = [\<lparr>rec_start = stat_start 1710720000, rec_value = 5\<rparr>]\<rparr>]"

declare stat_at_def [model_defs] point_of_def [model_defs] stored_point_def [model_defs]
  series_records_def [model_defs] store_import_def [model_defs] commit_def [model_defs]
  store_point_def [model_defs] store_response_def [model_defs] written_ids_def [model_defs]
  day_api_def [model_defs] run_on_store_def [model_defs] store_ok_def [model_defs]

section \<open>Reading a series\<close>

lemma stat_at_append_last:
  assumes "ys \<noteq> []" and "iso_instant (rec_start (last ys)) = Some t"
  shows "stat_at (xs @ ys) t = Some (rec_value (last ys))"
  using assms find_rev_last [of "xs @ ys"] by (simp add: stat_at_def)

section \<open>The store after a run\<close>

lemma commit_Cons:
  "commit s ((p, ok) # log) = commit (if ok then store_import s p else s) log"
  by (simp add: commit_def)

lemma commit_lookup:
  "commit s log sid =
     (case filter (\<lambda>(p, ok). ok \<and> statistic_id p = sid) log of
        [] \<Rightarrow> s sid
      | ps \<Rightarrow> Some \<lparr>ser_has_sum = has_sum (fst (last ps)),
                   ser_records = series_records s sid @ concat (map (stats_list \<circ> fst) ps)\<rparr>)"
proof (induction log arbitrary: s)
  case Nil
  then show ?case by (simp add: commit_def)
next
  case (Cons x log)
  obtain p ok where x: "x = (p, ok)" by (cases x)
  show ?case
    by (auto simp: x commit_Cons Cons store_import_def series_records_def
          split: list.split if_splits)
qed

lemma commit_lookup_Cons:
  assumes "filter (\<lambda>(p, ok). ok \<and> statistic_id p = sid) log = fs" and "fs \<noteq> []"
  shows "commit s log sid = Some \<lparr>ser_has_sum = has_sum (fst (last fs)),
                   ser_records = series_records s sid @ concat (map (stats_list \<circ> fst) fs)\<rparr>"
  using assms by (cases fs) (simp_all add: commit_lookup)

lemma store_point_commit_last:
  assumes "filter (\<lambda>(p, ok). ok \<and> statistic_id p = sid) log = ps @ [(p, ok)]"
    and "stats_list p \<noteq> []" and "iso_instant (rec_start (last (stats_list p))) = Some t"
    and "iso_instant q = Some t"
  shows "store_point (commit s log) sid q = Some (point_of (has_sum p) (rec_value (last (stats_list p))))"
proof -
  have "commit s log sid = Some \<lparr>ser_has_sum = has_sum p,
      ser_records = (series_records s sid @ concat (map (stats_list \<circ> fst) ps)) @ stats_list p\<rparr>"
    using commit_lookup_Cons [OF assms(1)] by simp
  then show ?thesis
    using assms(4) stat_at_append_last [OF assms(2,3), of "series_records s sid @ concat (map (stats_list \<circ> fst) ps)"]
    by (simp add: store_point_def)
qed

section \<open>The script's side of the store\<close>

lemma getStatistics_store_response:
  "getStatistics (store_response s sid q) = Inr (store_point s sid q)"
  by (simp add: getStatistics_def store_response_def split: option.split)

lemma read_point_day_api:
  "sid \<in> set written_ids \<Longrightarrow> read_point (day_api api s) sid d = Inr (store_point s sid (iso_param d))"
  by (simp add: read_point_def day_api_def getStatistics_store_response)

lemma run_Inr_write_back:
  "run env = Inr log \<Longrightarrow> \<exists>st. log = write_back (env_post env) st"
  by (auto simp: run_def rbind_eq_Inr_iff split: prod.splits)

lemma payload_ids:
  "statistic_id (payload_battery_out st) = HA_STAT_BATTERY_OUT"
  "statistic_id (payload_enedis_out st) = HA_STAT_ENEDIS_OUT"
  "statistic_id (payload_battery_stock st) = HA_STAT_BATTERY_STOCK"
  "has_sum (payload_battery_out st)" "has_sum (payload_enedis_out st)"
  "\<not> has_sum (payload_battery_stock st)"
  "stats_list (payload_battery_out st) = out_list st" "stats_list (payload_enedis_out st) = enedis_list st"
  "stats_list (payload_battery_stock st) = stock_list st"
  by (simp_all add: payload_battery_out_def payload_enedis_out_def payload_battery_stock_def)

lemma ids_distinct:
  "HA_STAT_BATTERY_OUT \<noteq> HA_STAT_ENEDIS_OUT" "HA_STAT_BATTERY_OUT \<noteq> HA_STAT_BATTERY_STOCK"
  "HA_STAT_ENEDIS_OUT \<noteq> HA_STAT_BATTERY_STOCK"
  by (simp_all add: HA_STAT_BATTERY_OUT_def HA_STAT_ENEDIS_OUT_def HA_STAT_BATTERY_STOCK_def)

lemma filter_write_back:
  "filter (\<lambda>(p, ok). ok \<and> statistic_id p = sid) (write_back post st) =
     (if sid = HA_STAT_BATTERY_OUT \<and> post_ok (post (payload_battery_out st)) then [(payload_battery_out st, True)] else [])
   @ (if sid = HA_STAT_ENEDIS_OUT \<and> post_ok (post (payload_enedis_out st)) then [(payload_enedis_out st, True)] else [])
   @ (if sid = HA_STAT_BATTERY_STOCK \<and> post_ok (post (payload_battery_stock st)) then [(payload_battery_stock st, True)] else [])"
  by (simp add: write_back_def payload_ids)

lemma simulate_last_hour:
  assumes "simulate b injs conss = Inr (b', st)" and "stock_list st \<noteq> []"
    and "t = start_ts (last (take (length conss) injs))"
    and "epoch_days (1000, 1, 1) * 86400 \<le> t + GMT_INT * 3600"
  shows "iso_instant (iso_param (t + GMT_INT * 3600)) = Some t
    \<and> out_list st \<noteq> [] \<and> enedis_list st \<noteq> []
    \<and> iso_instant (rec_start (last (stock_list st))) = Some t \<and> rec_value (last (stock_list st)) = stock b'
    \<and> iso_instant (rec_start (last (out_list st))) = Some t \<and> rec_value (last (out_list st)) = battery_out b'
    \<and> iso_instant (rec_start (last (enedis_list st))) = Some t \<and> rec_value (last (enedis_list st)) = enedis_out b'"
proof -
  obtain c where ok: "pair_error (last (take (length conss) injs), c) = None"
    and last: "last (stock_list st) = \<lparr>rec_start = stat_start (t + GMT_INT * 3600), rec_value = stock b'\<rparr>"
      "last (out_list st) = \<lparr>rec_start = stat_start (t + GMT_INT * 3600), rec_value = battery_out b'\<rparr>"
      "last (enedis_list st) = \<lparr>rec_start = stat_start (t + GMT_INT * 3600), rec_value = enedis_out b'\<rparr>"
    using simulate_last_record [OF assms(1,2)] assms(3) by blast
  have "iso_instant (stat_start (t + GMT_INT * 3600)) = Some t"
    using start_read_back [OF ok] assms(3,4) by simp
  moreover have "datetime_ok (t + GMT_INT * 3600)"
    using ok assms(3) by (simp add: pair_error_None datetime_ok_def GMT_INT_def)
  then have "iso_instant (iso_param (t + GMT_INT * 3600)) = Some t"
    by (simp add: iso_param_def iso_instant_isoformat)
  moreover have "out_list st \<noteq> [] \<and> enedis_list st \<noteq> []"
    using simulate_Inr_D [OF assms(1)] assms(2) by (simp add: recs_def)
  ultimately show ?thesis using last by simp
qed

lemma series_records_commit:
  "series_records (commit s log) sid =
     series_records s sid @ concat (map (stats_list \<circ> fst) (filter (\<lambda>(p, ok). ok \<and> statistic_id p = sid) log))"
  by (cases "filter (\<lambda>(p, ok). ok \<and> statistic_id p = sid) log") (simp_all add: commit_lookup series_records_def)

lemma read_point_written:
  assumes "filter (\<lambda>(p, ok). ok \<and> statistic_id p = sid) log = ps @ [(p, ok)]"
    and "sid \<in> set written_ids" and "stats_list p \<noteq> []"
    and "iso_instant (rec_start (last (stats_list p))) = Some t" and "iso_instant (iso_param d) = Some t"
  shows "read_point (day_api api (commit s log)) sid d = Inr (Some (point_of (has_sum p) (rec_value (last (stats_list p)))))"
  by (simp add: read_point_day_api [OF assms(2)] store_point_commit_last [OF assms(1,3,4,5)])

lemma run_on_store_Inr_D:
  assumes "run_on_store env s = Inr (log, s1)"
  shows "run (env\<lparr>env_api := day_api (env_api env) s\<rparr>) = Inr log \<and> s1 = commit s log
    \<and> (\<exists>st. log = write_back (env_post env) st)"
proof -
  from assms have r: "run (env\<lparr>env_api := day_api (env_api env) s\<rparr>) = Inr log" and "s1 = commit s log"
    by (auto simp: run_on_store_def rbind_eq_Inr_iff)
  with run_Inr_write_back [OF r] show ?thesis by simp
qed

lemmas ids_ne = ids_distinct ids_distinct [THEN not_sym]

section \<open>The example day against the store\<close>

lemma stat_start_instant:
  "epoch_days (1000, 1, 1) * 86400 \<le> n \<Longrightarrow> n < dt_max \<Longrightarrow> iso_instant (stat_start n) = Some (n - GMT_INT * 3600)"
  by (simp add: stat_start_def iso_instant_strftime)

lemma epoch_year_1000: "epoch_days (1000, 1, 1) * 86400 \<le> 0"
  by (simp add: epoch_days_def year_start_def month_start_def upto.simps)

lemma demo_instants:
  "iso_instant (stat_start 1710720000) = Some 1710709200"
  "iso_instant (stat_start 1710723600) = Some 1710712800"
  "iso_instant (stat_start 1710727200) = Some 1710716400"
  "iso_instant (stat_start 1710730800) = Some 1710720000"
  "iso_instant (iso_param 1710720000) = Some 1710709200"
  using epoch_year_1000
  by (simp_all add: stat_start_instant dt_max_val GMT_INT_def iso_param_def iso_instant_isoformat
    datetime_ok_def dt_min_val)

lemma demo_store_ok: "store_ok demo_store"
  by (simp add: store_ok_def demo_store_def ids_ne)

lemma demo_read_inputs_store:
  "read_inputs (day_api demo_api demo_store) 1710720000 1710806400
     = Inr (demo_battery, map to_raw demo_injs, map to_raw demo_conss)"
  by (simp add: read_inputs_def read_point_def day_api_def written_ids_def store_response_def
    store_point_def stat_at_def demo_store_def demo_instants point_of_def demo_api_def demo_point_def
    demo_range_def demo_defs getStatistics_def read_stock_def read_counter_def point_empty_def
    read_curve_def read_range_def timedelta_add_def datetime_ok_def dt_min_val dt_max_val
    HA_STAT_BATTERY_STOCK_def HA_STAT_BATTERY_OUT_def HA_STAT_ENEDIS_OUT_def
    HA_STAT_PROD_CURVE_def HA_STAT_CONSUMPTION_CURVE_def)

lemma demo_select_range: "select_range (env_args demo_env) (env_now demo_env) = Inr (1710720000, 1710806400)"
  by (simp add: demo_env_def select_range_def yesterday_range_def timedelta_add_def datetime_ok_def
    dt_min_val dt_max_val midnight_def)

lemma demo_run_on_store:
  "run_on_store demo_env demo_store
     = Inr (write_back demo_post demo_stats, commit demo_store (write_back demo_post demo_stats))"
proof -
  have "env_api demo_env = demo_api" "env_post demo_env = demo_post"
    "check_config (env_config demo_env) = Inr ()"
    by (simp_all add: demo_env_def check_config_def)
  then show ?thesis
    by (simp add: run_on_store_def run_def demo_select_range demo_read_inputs_store demo_simulate_json)
qed

section \<open>Consecutive runs\<close>

text \<open>
  C22. The next run starts from the state the previous run ended in. When the three
  series of a run were accepted and the next run's \<open>startDate\<close> is the wall-clock
  hour of the last record written, its reads of the prior battery-out and Enedis-out
  indices (lines 111--123) return the cumulative totals the loop ended with, and its
  read of the prior stock (lines 101--105) returns 1000 times the final stock, or
  stops the run when that stock was 0.
\<close>

theorem next_run_starts_from_last_state:
  assumes "simulate b injs conss = Inr (b', st)" and "stock_list st \<noteq> []"
    and "t = start_ts (last (take (length conss) injs))"
    and "epoch_days (1000, 1, 1) * 86400 \<le> t + GMT_INT * 3600"
    and "list_all snd (write_back post st)"
  shows "rbind (read_point (day_api api (commit s (write_back post st))) HA_STAT_BATTERY_STOCK (t + GMT_INT * 3600))
           read_stock = (if stock b' = 0 then Inl StockNotFound else Inr (stock b' * 1000))
     \<and> rbind (read_point (day_api api (commit s (write_back post st))) HA_STAT_BATTERY_OUT (t + GMT_INT * 3600))
           read_counter = Inr (battery_out b')
     \<and> rbind (read_point (day_api api (commit s (write_back post st))) HA_STAT_ENEDIS_OUT (t + GMT_INT * 3600))
           read_counter = Inr (enedis_out b')"
proof -
  from simulate_last_hour [OF assms(1-4)] have q: "iso_instant (iso_param (t + GMT_INT * 3600)) = Some t"
    and ne: "out_list st \<noteq> []" "enedis_list st \<noteq> []"
    and l: "iso_instant (rec_start (last (stock_list st))) = Some t"
      "iso_instant (rec_start (last (out_list st))) = Some t"
      "iso_instant (rec_start (last (enedis_list st))) = Some t"
    and v: "rec_value (last (stock_list st)) = stock b'" "rec_value (last (out_list st)) = battery_out b'"
      "rec_value (last (enedis_list st)) = enedis_out b'"
    by auto
  from assms(5) have acc: "post_ok (post (payload_battery_out st))" "post_ok (post (payload_enedis_out st))"
    "post_ok (post (payload_battery_stock st))" by (simp_all add: write_back_def)
  then have f:
    "filter (\<lambda>(p, ok). ok \<and> statistic_id p = HA_STAT_BATTERY_STOCK) (write_back post st) = [] @ [(payload_battery_stock st, True)]"
    "filter (\<lambda>(p, ok). ok \<and> statistic_id p = HA_STAT_BATTERY_OUT) (write_back post st) = [] @ [(payload_battery_out st, True)]"
    "filter (\<lambda>(p, ok). ok \<and> statistic_id p = HA_STAT_ENEDIS_OUT) (write_back post st) = [] @ [(payload_enedis_out st, True)]"
    by (simp_all add: filter_write_back ids_ne)
  have w: "HA_STAT_BATTERY_STOCK \<in> set written_ids" "HA_STAT_BATTERY_OUT \<in> set written_ids"
    "HA_STAT_ENEDIS_OUT \<in> set written_ids" by (simp_all add: written_ids_def)
  from read_point_written [OF f(1) w(1)] read_point_written [OF f(2) w(2)] read_point_written [OF f(3) w(3)]
  show ?thesis using assms(2) ne l v q
    by (simp add: payload_ids read_stock_def read_counter_def point_of_def point_empty_def)
qed

text \<open>
  C23. The kinds of the script's series are an invariant of the store: a run that
  starts from a store whose battery-out and Enedis-out series are cumulative and
  whose stock series is a gauge leaves it so.
\<close>

theorem run_on_store_ok:
  assumes "run_on_store env s = Inr (log, s1)" and "store_ok s"
  shows "store_ok s1"
proof -
  from run_on_store_Inr_D [OF assms(1)] obtain st where
    s1: "s1 = commit s log" and log: "log = write_back (env_post env) st" by blast
  show ?thesis
    using assms(2) unfolding s1 log store_ok_def
    by (simp add: commit_lookup filter_write_back ids_ne payload_ids split: option.splits)
qed

text \<open>
  C24. What a run does to the store (lines 213--263 against the import of the
  store): each of the three series gets the records the loop computed for it when the
  server accepted its request and is unchanged when it rejected it, independently of
  the other two, and no other series changes.
\<close>

theorem run_on_store_series:
  assumes "run_on_store env s = Inr (log, s1)"
  shows "\<exists>st. log = write_back (env_post env) st
     \<and> series_records s1 HA_STAT_BATTERY_OUT = series_records s HA_STAT_BATTERY_OUT
         @ (if post_ok (env_post env (payload_battery_out st)) then out_list st else [])
     \<and> series_records s1 HA_STAT_ENEDIS_OUT = series_records s HA_STAT_ENEDIS_OUT
         @ (if post_ok (env_post env (payload_enedis_out st)) then enedis_list st else [])
     \<and> series_records s1 HA_STAT_BATTERY_STOCK = series_records s HA_STAT_BATTERY_STOCK
         @ (if post_ok (env_post env (payload_battery_stock st)) then stock_list st else [])
     \<and> (\<forall>sid. sid \<notin> set written_ids \<longrightarrow> s1 sid = s sid)"
proof -
  from run_on_store_Inr_D [OF assms(1)] obtain st where
    s1: "s1 = commit s log" and log: "log = write_back (env_post env) st" by blast
  have "sid \<notin> set written_ids \<Longrightarrow> s1 sid = s sid" for sid
    unfolding s1 log by (simp add: commit_lookup filter_write_back written_ids_def)
  then show ?thesis
    unfolding s1 log by (intro exI [of _ st]) (simp add: series_records_commit filter_write_back ids_ne payload_ids)
qed

theorem next_run_starts_from_last_state_witness:
  "rbind (read_point (day_api demo_api (commit demo_store (write_back (\<lambda>_. 201) demo_stats)))
       HA_STAT_BATTERY_STOCK (1710720000 + GMT_INT * 3600)) read_stock = Inl StockNotFound
   \<and> rbind (read_point (day_api demo_api (commit demo_store (write_back (\<lambda>_. 201) demo_stats)))
       HA_STAT_BATTERY_OUT (1710720000 + GMT_INT * 3600)) read_counter = Inr 7500
   \<and> rbind (read_point (day_api demo_api (commit demo_store (write_back (\<lambda>_. 201) demo_stats)))
       HA_STAT_ENEDIS_OUT (1710720000 + GMT_INT * 3600)) read_counter = Inr 4500"
proof -
  have h: "stock_list demo_stats \<noteq> []" by (simp add: demo_stats_def)
  have t: "1710720000 = start_ts (last (take (length demo_conss) demo_injs))" by (simp add: demo_defs)
  have y: "epoch_days (1000, 1, 1) * 86400 \<le> 1710720000 + GMT_INT * 3600"
    using epoch_year_1000 by (simp add: GMT_INT_def)
  have a: "list_all snd (write_back (\<lambda>_. 201) (demo_stats :: int stats))"
    by (simp add: write_back_def post_ok_def)
  from next_run_starts_from_last_state [OF demo_simulate h t y a, of demo_api demo_store]
  show ?thesis by (simp add: demo_final_def)
qed

theorem run_on_store_ok_witness:
  "store_ok (commit demo_store (write_back demo_post demo_stats))"
  by (rule run_on_store_ok [OF demo_run_on_store demo_store_ok])

theorem run_on_store_series_witness:
  "series_records (commit demo_store (write_back demo_post demo_stats)) HA_STAT_BATTERY_OUT = out_list demo_stats
   \<and> series_records (commit demo_store (write_back demo_post demo_stats)) HA_STAT_ENEDIS_OUT = []
   \<and> series_records (commit demo_store (write_back demo_post demo_stats)) HA_STAT_BATTERY_STOCK
       = \<lparr>rec_start = stat_start 1710720000, rec_value = 5\<rparr> # stock_list demo_stats"
proof -
  from run_on_store_series [OF demo_run_on_store] obtain st where
    w: "write_back demo_post demo_stats = write_back (env_post demo_env) st" and
    r: "series_records (commit demo_store (write_back demo_post demo_stats)) HA_STAT_BATTERY_OUT
          = series_records demo_store HA_STAT_BATTERY_OUT
            @ (if post_ok (env_post demo_env (payload_battery_out st)) then out_list st else [])"
      "series_records (commit demo_store (write_back demo_post demo_stats)) HA_STAT_ENEDIS_OUT
          = series_records demo_store HA_STAT_ENEDIS_OUT
            @ (if post_ok (env_post demo_env (payload_enedis_out st)) then enedis_list st else [])"
      "series_records (commit demo_store (write_back demo_post demo_stats)) HA_STAT_BATTERY_STOCK
          = series_records demo_store HA_STAT_BATTERY_STOCK
            @ (if post_ok (env_post demo_env (payload_battery_stock st)) then stock_list st else [])"
    by blast
  have e: "env_post demo_env = demo_post" by (simp add: demo_env_def)
  from w have "out_list st = out_list demo_stats" "enedis_list st = enedis_list demo_stats"
    "stock_list st = stock_list demo_stats"
    by (simp_all add: e write_back_def payload_battery_out_def payload_enedis_out_def payload_battery_stock_def)
  with r e show ?thesis
    by (simp add: series_records_def demo_store_def ids_ne demo_post_def post_ok_def payload_ids)
qed

end
