(* ===== verification/Spec2Isabelle.thy ===== *)
theory Spec2Isabelle
  imports Store
begin

text \<open>
  \<^bold>\<open>A verified model of \<open>src/virtualBattery_to_ha.py\<close>.\<close>

  \<^bold>\<open>The program.\<close> One Python script rebuilds, hour by hour, the history of a
  virtual home battery from two metered cumulative curves of Home Assistant
  (grid injection and grid consumption) and writes three derived series back:
  the battery stock, the cumulative energy taken from the battery, and the
  cumulative energy drawn from the grid (Enedis). Its parts, in the order the
  script runs them:
  \<^item> configuration check (lines 13--15, 77--80) and date range (82--97): two
    \<open>strptime\<close> dates or the previous day;
  \<^item> statistic reads through \<open>getStatistics\<close> (43--63), whose date parameter is
    \<open>isoformat(sep=' ') + "+03:00"\<close>: the stock, required and scaled by 1000, three
    cumulative counters that default to 0, and the two hourly curves, required and
    queried one hour after the range (99--155);
  \<^item> the hourly loop (157--210), the core: each sample's \<open>start_ts\<close> read as a
    \<open>+03:00\<close> datetime, the two compared, energies from index differences, the
    injection credited to the stock, the consumption served from the stock or, for
    the shortfall, from the grid, one record per hour in each output list, stamped
    with \<open>strftime('%Y-%m-%d %H:%M:%S') + "+03:00"\<close>;
  \<^item> write-back of the three series, one independent POST each (213--263).
  The parts communicate only by values passed along the script; there is no
  concurrency and no shared state beyond the loop's five variables.

  \<^bold>\<open>The theories.\<close>
  \<^item> \<open>Prelude\<close>: the exits of the script (\<open>py_error\<close>: every \<open>exit(1)\<close>, the
    uncaught \<open>KeyError\<close>, \<open>TypeError\<close>, \<open>JSONDecodeError\<close> and \<open>datetime\<close>
    range errors), JSON fields
    (\<open>jfield\<close>: missing, \<open>null\<close> or a value), \<open>rbind\<close> for sequencing fallible
    steps, \<open>first_some\<close> for the first failing check of a loop, shared lemmas, the collection \<open>model_defs\<close> of the definitions unfolded
    when a concrete run is evaluated.
  \<^item> \<open>Calendar\<close>: Python's \<open>datetime\<close> as the script uses it. A datetime is its
    wall-clock seconds since 1970-01-01; \<open>epoch_days\<close> and \<open>civil_from_days\<close> are
    the proleptic Gregorian calendar and its inverse; \<open>datetime_ok\<close> is the range of
    years 1--9999; \<open>timedelta_add\<close>, \<open>midnight\<close>, \<open>fromtimestamp_gmt3\<close> (lines
    164--165), \<open>strftime_ymdhms\<close> (203), \<open>isoformat_sp\<close> (51) and
    \<open>strptime_ymd\<close> (87--88, with the regular expression CPython builds for
    \<open>%Y-%m-%d\<close>, alternatives in the engine's order) are the operations called.
    \<open>iso_instant\<close> is the store's reading of a timestamp string: its wall clock
    (\<open>iso_wall\<close>) less the UTC offset written in it (\<open>utc_offset\<close>).
  \<^item> \<open>Battery\<close>: the loop. The record \<open>battery\<close> holds the loop variables
    \<open>previousBatteryStock\<close>, \<open>previousBatteryOut\<close>, \<open>previousEnedisOut\<close>,
    \<open>previousInjectionIndex\<close>, \<open>previousConsumtionIndex\<close>; \<open>read_hour\<close>,
    \<open>charge\<close> and \<open>discharge\<close> are the three steps of the loop body,
    \<open>hour_state\<close> the body, \<open>stat_start\<close> the \<open>start\<close> string, \<open>emit\<close> the three
    appends, \<open>hour_loop\<close> the \<open>for\<close> loop over \<open>zip\<close> with the checks of lines
    164--169, \<open>simulate\<close> lines 157--210. The spec's contract is stated twice, as
    the function \<open>hour_spec\<close> (discharge is \<open>min consumed (stock + injected)\<close>) and
    as the state machine \<open>hour_step\<close> / \<open>runs\<close> (serve or drain);
    \<open>hour_trace\<close>, \<open>pair_error\<close> and \<open>loop_error\<close> are the loop's reference form.
  \<^item> \<open>Curves\<close>: the same loop over the records as the API returns them, JSON
    objects whose \<open>start_ts\<close> and \<open>sum\<close> may be missing or \<open>null\<close>
    (\<open>raw_sample\<close>): \<open>hour_loop_json\<close> and \<open>simulate_json\<close>, the loop the
    script runs, with every key access of lines 164--177 in the code's order
    (\<open>json_datetime\<close>, \<open>json_sum\<close>); \<open>raw_pair_error\<close> and
    \<open>raw_loop_error\<close> are its reference form. It is proved equal to the loop of
    \<open>Battery\<close> on well-formed records (\<open>hour_loop_json_eq\<close>), which carries
    that theory's theorems over.
  \<^item> \<open>Readings\<close>: \<open>getStatistics\<close>, the answers as records \<open>response\<close> and
    \<open>point\<close>, the API as the record \<open>stat_api\<close> of two query functions of the
    sensor and the date strings, \<open>iso_param\<close>, \<open>read_stock\<close>, \<open>read_counter\<close>,
    \<open>read_range\<close>, \<open>read_curve\<close> (with its \<open>timedelta\<close> sums) and the read phase
    \<open>read_inputs\<close>.
  \<^item> \<open>Run\<close>: \<open>check_config\<close>, \<open>yesterday_range\<close>, \<open>select_range\<close>, the
    payloads, \<open>write_back\<close> and the whole script \<open>run\<close> over an environment
    record \<open>env\<close> (variables, arguments, clock, API, POST endpoint).
  \<^item> \<open>Store\<close>: the statistics store the script reads and writes (Home
    Assistant's recorder, outside the repository, modelled from spec section 6) as
    state: a map from statistic id to a \<open>series\<close> (kind and records).
    \<open>store_import\<close> is \<open>import_statistics\<close>, \<open>commit\<close> applies the requests of a
    run that the server accepted, \<open>stat_at\<close> / \<open>store_point\<close> /
    \<open>store_response\<close> answer a point read with the last record at the queried
    instant; \<open>day_api\<close> serves the three written series from the store and the
    meter curves from the meter's API; \<open>run_on_store\<close> is one invocation of the
    script against the store; \<open>store_ok\<close> says the written series have the kinds
    the script gives them.
  \<^item> this theory: the read-back of a written stock series by the next run.

  \<^bold>\<open>What is proved.\<close>
  \<^item> The loop (\<open>Battery\<close>, C1--C9, C16, C18, C19): energy conservation per
    hour (C1) and over a run (C8); the grid is drawn on only once the battery is empty
    (C16); the loop body refines the per-hour contract (C2) and the loop refines the
    serve/drain state machine in both directions (C9); every emitted stock is
    non-negative (C3); the grid-draw series never decreases (C4), the discharge series
    never decreases when the meters never go back (C5); the outputs are aligned with
    the inputs, truncated to the shorter curve (C6), and their \<open>start\<close> strings are
    read by the store as the samples' timestamps (C18); the loop fails exactly at the
    first pair with an unrepresentable or mismatched timestamp, with that pair's error
    (C7), and otherwise runs to its end (C19). Invariants are proved on the state
    machine by rule induction and transported to the loop by refinement.
  \<^item> The loop over JSON records (\<open>Curves\<close>, C20): it fails exactly at the first
    pair with a missing or \<open>null\<close> key, an unrepresentable or mismatched timestamp,
    with that pair's first error in the code's order.
  \<^item> The reads (\<open>Readings\<close>, C10--C13, C21): how \<open>getStatistics\<close> fails (C21);
    when the stock read succeeds and what it yields (C10), when a counter read fails
    (C11), missing counters start at 0 (C12), an unreadable or zero stock stops the
    script (C13).
  \<^item> The date range (\<open>Run\<close>, C14, C17): the default range is exactly the previous
    day (C14); dates given as \<open>YYYY-MM-DD\<close> give the range between their midnights
    (C17). Both rest on the calendar lemmas of \<open>Calendar\<close>: \<open>epoch_days\<close> inverts
    \<open>civil_from_days\<close>, and the ISO strings of lines 51 and 203 read back to their
    instants.
  \<^item> Across runs: the read-back of the stock series by the next run, through the
    record's \<open>start\<close> string and the query's date string (here, C15); against the
    store (\<open>Store\<close>, C22--C24), after a run whose three requests were accepted, the
    next run from the hour of its last record reads back the final battery-out and
    Enedis-out totals and 1000 times the final stock (C22); every run keeps the kinds
    of the written series (C23); a run appends to each series exactly the records of
    its accepted request and touches no other series (C24).

  \<^bold>\<open>Bounds and fuel.\<close> Every loop of the script is a \<open>for\<close> over a finite list,
  modelled by structural recursion; the calendar walks (\<open>year_walk\<close>,
  \<open>month_walk\<close>) are \<open>function\<close>s with termination proofs by a measure; no fuel
  is needed and every definition is executable (witnesses evaluate by \<open>simp\<close> or
  \<open>code_simp\<close>). Energy values are in any linearly ordered ring
  (\<open>linordered_idom\<close>): Python's integers exactly, its floats read as exact
  arithmetic. Times are integers (seconds); the bound that matters is
  \<open>datetime\<close>'s range of years 1--9999, modelled where the code can leave it
  (\<open>fromtimestamp\<close>, \<open>timedelta\<close> sums). The read-back theorems assume years of
  four digits, since \<open>%Y\<close> does not pad.

  \<^bold>\<open>Not modelled.\<close> HTTP transport and printing (their results enter as values:
  statuses and messages); the argument parser (its result is the record
  \<open>cli_args\<close>); JSON values of an unexpected type (a message that is a list, a
  \<open>sum\<close> that is a string: only missing keys and \<open>null\<close> are modelled);
  fractional timestamps and float rounding; the host's time zone (\<open>datetime.now()\<close>
  is taken to be the \<open>+03:00\<close> wall clock the rest of the script assumes);
  non-ASCII digits. The statistics store is outside the repository: \<open>Store\<close>
  models it from the spec (section 6) with point reads that match the queried
  instant exactly and imports that append (a later record of an hour replaces an
  earlier one); its answer to a point read with no record is taken to be a
  \<open>null\<close> message, which the script treats like a failed request. The store
  reads a timestamp string by its own offset (\<open>iso_instant\<close>: the wall clock less
  the \<open>+hh:mm\<close> written in the string), so the read-back theorems C15, C18 and
  C22 depend on the script's \<open>GMT\<close> string agreeing with its \<open>GMT_INT\<close> hours. The
  range reads of the meter curves are not served from the store but from the
  \<open>stat_api\<close> record, since those series are written by the meter's integration,
  not by the script.

  \<^bold>\<open>Plan for the next sittings.\<close> Injectivity of the record timestamps
  (\<open>civil_from_days\<close> after \<open>epoch_days\<close>); the range read served from the
  store.
\<close>

section \<open>The next run's starting stock\<close>

text \<open>
  C15. The stock series is written in Wh under the unit \<open>kWh\<close>, and the next run
  multiplies what it reads by 1000. A run whose \<open>startDate\<close> is the wall-clock hour
  of the last record written (its query, line 51, names the same instant as the
  record's \<open>start\<close>, line 203) therefore starts from 1000 times the final stock;
  and when the day ended with an empty battery it stops with \<open>StockNotFound\<close>.
\<close>

theorem stock_series_read_back:
  assumes "simulate b injs conss = Inr (b', st)" and "stock_list st \<noteq> []"
    and "t = start_ts (last (take (length conss) injs))"
    and "epoch_days (1000, 1, 1) * 86400 \<le> t + GMT_INT * 3600"
  shows "read_stock (stored_point (payload_battery_stock st) (iso_param (t + GMT_INT * 3600)))
         = (if stock b' = 0 then Inl StockNotFound else Inr (stock b' * 1000))"
proof -
  from simulate_last_hour [OF assms] have q: "iso_instant (iso_param (t + GMT_INT * 3600)) = Some t"
    and l: "iso_instant (rec_start (last (stock_list st))) = Some t" "rec_value (last (stock_list st)) = stock b'"
    by auto
  from stat_at_append_last [OF assms(2) l(1), of "[]"] l(2)
  have "stat_at (stock_list st) t = Some (stock b')" by simp
  with q show ?thesis
    by (simp add: stored_point_def point_of_def payload_battery_stock_def read_stock_def point_empty_def)
qed

theorem stock_series_read_back_witness:
  "simulate demo_battery demo_injs demo_conss = Inr (demo_final, demo_stats)
   \<and> stock_list demo_stats \<noteq> []
   \<and> epoch_days (1000, 1, 1) * 86400 \<le> 1710720000 + GMT_INT * 3600
   \<and> read_stock (stored_point (payload_battery_stock demo_stats) (iso_param (1710720000 + GMT_INT * 3600)))
       = Inl StockNotFound"
proof -
  have h: "stock_list demo_stats \<noteq> []" by (simp add: demo_stats_def)
  have t: "1710720000 = start_ts (last (take (length demo_conss) demo_injs))" by (simp add: demo_defs)
  have y: "epoch_days (1000, 1, 1) * 86400 \<le> 1710720000 + GMT_INT * 3600"
    by (simp add: GMT_INT_def epoch_days_def year_start_def month_start_def upto.simps)
  have "stock demo_final = 0" by (simp add: demo_final_def)
  with stock_series_read_back [OF demo_simulate h t y] demo_simulate h y show ?thesis by simp
qed

end
